theory Spec2Isabelle
  imports Complex_Main
begin

section \<open>Python outcomes\<close>

text \<open>
  The script \<^verbatim>\<open>weather.py\<close> has no exception handler: every exception ends the run.
  A computation that can raise returns \<open>error + 'a\<close>, with \<open>Inl\<close> the exception.
  \<open>CollaboratorError\<close> stands for whatever an external library raises (requests,
  the JSON decoder, pytz, datetime).
\<close>

datatype error =
  KeyError | TypeError | IndexError | NameError | ValueError | OverflowError | SystemError
  | CollaboratorError

definition thn :: "error + 'a \<Rightarrow> ('a \<Rightarrow> error + 'b) \<Rightarrow> error + 'b" where
  "thn r f = (case r of Inl e \<Rightarrow> Inl e | Inr v \<Rightarrow> f v)"

section \<open>Icon classification (lines 21-39)\<close>

text \<open>
  \<^verbatim>\<open>icon_map\<close> is a dict literal; a Python dict iterates its keys in insertion order, so
  the table is the association list of its items in the order of the source.
\<close>

definition icon_map :: "(string \<times> string list) list" where
  "icon_map =
    [(''snow'', [''snow'', ''sleet'']),
     (''rain'', [''rain'']),
     (''cloud'', [''fog'', ''cloudy'', ''partly-cloudy-day'', ''partly-cloudy-night'']),
     (''sun'', [''clear-day'', ''clear-night'']),
     (''storm'', []),
     (''wind'', [''wind''])]"

definition LARGE_FONT_SIZE :: nat where "LARGE_FONT_SIZE = 20"
definition MEDIUM_FONT_SIZE :: nat where "MEDIUM_FONT_SIZE = 17"
definition SMALL_FONT_SIZE :: nat where "SMALL_FONT_SIZE = 15"
definition SUMMARY_H :: nat where "SUMMARY_H = LARGE_FONT_SIZE * 2"
definition FORECARST_COLUMNS :: nat where "FORECARST_COLUMNS = 3"

text \<open>
  The loop of \<^verbatim>\<open>lookup_icon\<close> over the remaining items of the table: the first category
  whose code list holds \<open>icon_name\<close> is returned; falling off the end of the function
  returns Python's \<^verbatim>\<open>None\<close>, here \<open>None\<close>.
\<close>

fun lookup_icon_loop :: "(string \<times> string list) list \<Rightarrow> string \<Rightarrow> string option" where
  "lookup_icon_loop [] icon_name = None"
| "lookup_icon_loop ((icon, codes) # rest) icon_name =
     (if icon_name \<in> set codes then Some icon else lookup_icon_loop rest icon_name)"

definition lookup_icon :: "string \<Rightarrow> string option" where
  "lookup_icon icon_name = lookup_icon_loop icon_map icon_name"

section \<open>The forecast document\<close>

text \<open>
  What \<^verbatim>\<open>json.loads\<close> can produce. \<open>'n\<close> is the type of Python numbers (int or float);
  \<open>JNull\<close> is Python's \<^verbatim>\<open>None\<close>. A \<open>JDict\<close> lists the items of the dict, keys distinct.
\<close>

datatype 'n jvalue =
    JNull
  | JBool bool
  | JNum 'n
  | JStr string
  | JList "'n jvalue list"
  | JDict "(string \<times> 'n jvalue) list"

text \<open>
  \<^verbatim>\<open>value[key]\<close> with a string key: a dict raises KeyError on a missing key; a string, a
  list, a number and \<^verbatim>\<open>None\<close> raise TypeError.
\<close>

fun getitem :: "'n jvalue \<Rightarrow> string \<Rightarrow> error + 'n jvalue" where
  "getitem (JDict items) k = (case map_of items k of None \<Rightarrow> Inl KeyError | Some v \<Rightarrow> Inr v)"
| "getitem _ k = Inl TypeError"

text \<open>
  \<^verbatim>\<open>value[i]\<close> with an index of \<^verbatim>\<open>range(...)\<close>: a list and a string raise IndexError out of
  range (a string yields the one-character string); a dict of string keys has no integer
  key.
\<close>

fun getindex :: "'n jvalue \<Rightarrow> nat \<Rightarrow> error + 'n jvalue" where
  "getindex (JList xs) i = (if i < length xs then Inr (xs ! i) else Inl IndexError)"
| "getindex (JStr s) i = (if i < length s then Inr (JStr [s ! i]) else Inl IndexError)"
| "getindex (JDict items) i = Inl KeyError"
| "getindex _ i = Inl TypeError"

section \<open>Fetching the forecast (lines 41-46)\<close>

text \<open>
  A response of \<^verbatim>\<open>requests.get\<close>: its status code and the outcome of \<^verbatim>\<open>res.json()\<close>,
  which raises when the body is not JSON.
\<close>

record 'n response =
  status_code :: int
  json :: "error + 'n jvalue"

definition forecast_url :: "string \<Rightarrow> string \<Rightarrow> string \<Rightarrow> string" where
  "forecast_url latitude longitude key =
     ''https://api.darksky.net/forecast/'' @ key @ ''/'' @ latitude @ '','' @ longitude
       @ ''?exclude=minutely,hourly,alerts,flags&units=si&lang=en''"

text \<open>
  \<open>requests_get\<close> is the network: the response to a GET of the URL, or the exception
  \<^verbatim>\<open>requests.get\<close> raises. The function returns \<^verbatim>\<open>None\<close>, here \<open>JNull\<close>, on a status
  other than 200.
\<close>

definition get_weather ::
  "(string \<Rightarrow> error + 'n response) \<Rightarrow> string \<Rightarrow> string \<Rightarrow> string \<Rightarrow> error + 'n jvalue" where
  "get_weather requests_get latitude longitude key =
     thn (requests_get (forecast_url latitude longitude key)) (\<lambda>res.
       if status_code res = 200 then json res else Inr JNull)"

section \<open>Images and the transparency mask (lines 48-65)\<close>

text \<open>
  A PIL image of mode \<^verbatim>\<open>"P"\<close> (a palette index per pixel) or \<^verbatim>\<open>"1"\<close> (0 or 255 per
  pixel): its size and its pixels row by row, the pixel at \<open>(x, y)\<close> at index
  \<open>y * width + x\<close>. A PIL image holds \<open>width * height\<close> pixels (\<open>wf_image\<close>).
\<close>

datatype mode = Mode1 | ModeP

record image =
  mode :: mode
  width :: nat
  height :: nat
  pixels :: "nat list"

definition wf_image :: "image \<Rightarrow> bool" where
  "wf_image im \<longleftrightarrow> length (pixels im) = width im * height im"

text \<open>\<^verbatim>\<open>Image.new(mode, size)\<close> for an image: every pixel is 0.\<close>

definition Image_new :: "mode \<Rightarrow> nat \<times> nat \<Rightarrow> image" where
  "Image_new m sz =
     \<lparr>mode = m, width = fst sz, height = snd sz, pixels = replicate (fst sz * snd sz) 0\<rparr>"

text \<open>
  \<^verbatim>\<open>getpixel\<close> and \<^verbatim>\<open>putpixel\<close> at a coordinate of \<^verbatim>\<open>range(w)\<close>, \<^verbatim>\<open>range(h)\<close>; PIL raises
  IndexError outside the image.
\<close>

definition getpixel :: "image \<Rightarrow> nat \<times> nat \<Rightarrow> error + nat" where
  "getpixel im xy =
     (case xy of (x, y) \<Rightarrow>
        if x < width im \<and> y < height im then Inr (pixels im ! (y * width im + x))
        else Inl IndexError)"

definition putpixel :: "image \<Rightarrow> nat \<times> nat \<Rightarrow> nat \<Rightarrow> error + image" where
  "putpixel im xy v =
     (case xy of (x, y) \<Rightarrow>
        if x < width im \<and> y < height im
        then Inr (im\<lparr>pixels := (pixels im)[y * width im + x := v]\<rparr>)
        else Inl IndexError)"

text \<open>
  The inner loop \<^verbatim>\<open>for y in range(h)\<close> of \<^verbatim>\<open>create_mask\<close> at column \<open>x\<close>, over the rows
  still to visit. The parameter \<^verbatim>\<open>mask\<close> of the source, the allowed palette indices, is
  \<open>allowed\<close> here.
\<close>

fun create_mask_column :: "image \<Rightarrow> nat list \<Rightarrow> nat \<Rightarrow> nat list \<Rightarrow> image \<Rightarrow> error + image" where
  "create_mask_column source allowed x [] mask_image = Inr mask_image"
| "create_mask_column source allowed x (y # ys) mask_image =
     (case getpixel source (x, y) of
        Inl e \<Rightarrow> Inl e
      | Inr p \<Rightarrow>
          if p \<in> set allowed
          then (case putpixel mask_image (x, y) 255 of
                  Inl e \<Rightarrow> Inl e
                | Inr mask_image' \<Rightarrow> create_mask_column source allowed x ys mask_image')
          else create_mask_column source allowed x ys mask_image)"

text \<open>The outer loop \<^verbatim>\<open>for x in range(w)\<close>, over the columns still to visit.\<close>

fun create_mask_columns :: "image \<Rightarrow> nat list \<Rightarrow> nat list \<Rightarrow> nat \<Rightarrow> image \<Rightarrow> error + image" where
  "create_mask_columns source allowed [] h mask_image = Inr mask_image"
| "create_mask_columns source allowed (x # xs) h mask_image =
     (case create_mask_column source allowed x [0..<h] mask_image of
        Inl e \<Rightarrow> Inl e
      | Inr mask_image' \<Rightarrow> create_mask_columns source allowed xs h mask_image')"

definition create_mask :: "image \<Rightarrow> nat list \<Rightarrow> error + image" where
  "create_mask source allowed =
     (let mask_image = Image_new Mode1 (width source, height source);
          w = width source; h = height source
      in create_mask_columns source allowed [0..<w] h mask_image)"

text \<open>
  The mask in closed form, for comparison with \<open>create_mask\<close>: 255 where the source
  pixel is allowed, 0 elsewhere.
\<close>

definition mask_of :: "image \<Rightarrow> nat list \<Rightarrow> image" where
  "mask_of source allowed =
     \<lparr>mode = Mode1, width = width source, height = height source,
      pixels = map (\<lambda>p. if p \<in> set allowed then 255 else 0) (pixels source)\<rparr>"

section \<open>The display, the fonts and the canvas\<close>

text \<open>
  The constants of the display driver object (\<^verbatim>\<open>InkyWHAT(colour)\<close>) that the script reads.
\<close>

record inky =
  WIDTH :: int
  HEIGHT :: int
  WHITE :: nat
  BLACK :: nat
  RED :: nat

text \<open>
  The library calls whose results the layout depends on:
  \<^item> \<open>getsize size text\<close> is \<^verbatim>\<open>ImageFont.truetype(FredokaOne, size).getsize(text)\<close>;
  \<^item> \<open>round1 v\<close> is the text of \<^verbatim>\<open>{round(v, 1)}\<close> in an f-string, or the exception
    \<^verbatim>\<open>round\<close> raises;
  \<^item> \<open>day_name t tz\<close> is
    \<^verbatim>\<open>calendar.day_name[datetime.fromtimestamp(t, pytz.timezone(tz)).weekday()]\<close>;
  \<^item> \<open>now_stamp tz\<close> is
    \<^verbatim>\<open>datetime.now(pytz.timezone(tz)).strftime("%H:%M:%S %d %b %Y")\<close>;
  \<^item> \<open>text_raises xy\<close> is the exception that \<^verbatim>\<open>draw.text(xy, ...)\<close> raises for the
    anchor \<open>xy\<close>, and \<open>rectangle_raises box\<close> the one that \<^verbatim>\<open>draw.rectangle(box, ...)\<close>
    raises for the box, \<open>None\<close> when the call draws. Pillow's C layer reads an integer
    coordinate as a C long and fails (SystemError) when it does not fit; the width of a
    C long, what happens to a float coordinate out of range and further checks of the
    box depend on the platform and on the version of the library.
  A coordinate of a text is an \<^verbatim>\<open>int\<close> or a \<^verbatim>\<open>float\<close> of the source; a float \<^verbatim>\<open>n / 2\<close> is
  the rational \<open>n / 2\<close> here, which the float equals for \<open>\<bar>n\<bar> < 2 ^ 53\<close>.
\<close>

datatype coord = CInt int | CFloat rat

fun coord_value :: "coord \<Rightarrow> rat" where
  "coord_value (CInt n) = of_int n"
| "coord_value (CFloat q) = q"

record 'n env =
  getsize :: "nat \<Rightarrow> string \<Rightarrow> int \<times> int"
  round1 :: "'n jvalue \<Rightarrow> error + string"
  day_name :: "'n jvalue \<Rightarrow> 'n jvalue \<Rightarrow> error + string"
  now_stamp :: "'n jvalue \<Rightarrow> error + string"
  text_raises :: "coord \<times> coord \<Rightarrow> error option"
  rectangle_raises :: "int \<times> int \<times> int \<times> int \<Rightarrow> error option"

text \<open>
  A canvas is a \<^verbatim>\<open>"P"\<close> image that is drawn on: its size, its background colour and the
  drawing calls made on it, in order. \<^verbatim>\<open>ImageDraw.Draw(img)\<close> draws on \<^verbatim>\<open>img\<close> itself, so
  the parameters \<^verbatim>\<open>draw\<close> and \<^verbatim>\<open>img\<close> of the source are one canvas here.
  \<^item> \<open>Text xy text fill font_size\<close> is \<^verbatim>\<open>draw.text(xy, text, fill, font=font)\<close>. The
    \<^verbatim>\<open>align\<close> argument of line 116 (it concerns text of several lines) is not recorded.
  \<^item> \<open>Rectangle box fill\<close> is \<^verbatim>\<open>draw.rectangle(box, fill=fill)\<close>.
  \<^item> \<open>Paste im box m\<close> is \<^verbatim>\<open>img.paste(im, box, m)\<close> of an icon through its mask.
  \<^item> \<open>PasteCanvas tile box\<close> is \<^verbatim>\<open>img.paste(tile, box)\<close> of a drawn tile.
\<close>

datatype canvas = Canvas (cwidth: nat) (cheight: nat) (cfill: nat) (cops: "draw_op list")
and draw_op =
    Text "coord \<times> coord" string nat nat
  | Rectangle "int \<times> int \<times> int \<times> int" nat
  | Paste image "int \<times> int" image
  | PasteCanvas canvas "int \<times> int"

text \<open>
  \<^verbatim>\<open>Image.new("P", size, colour)\<close>: PIL raises ValueError on a negative size. A size that
  the machine cannot allocate is not modelled.
\<close>

definition Image_new_P :: "int \<times> int \<Rightarrow> nat \<Rightarrow> error + canvas" where
  "Image_new_P sz colour =
     (if fst sz < 0 \<or> snd sz < 0 then Inl ValueError
      else Inr (Canvas (nat (fst sz)) (nat (snd sz)) colour []))"

definition add_op :: "canvas \<Rightarrow> draw_op \<Rightarrow> canvas" where
  "add_op c op = Canvas (cwidth c) (cheight c) (cfill c) (cops c @ [op])"

text \<open>
  \<^verbatim>\<open>draw.text\<close> and \<^verbatim>\<open>draw.rectangle\<close> raise what the drawing layer raises for their
  coordinates, and draw otherwise.
\<close>

definition draw_text ::
  "'n env \<Rightarrow> canvas \<Rightarrow> coord \<times> coord \<Rightarrow> string \<Rightarrow> nat \<Rightarrow> nat \<Rightarrow> error + canvas" where
  "draw_text env c xy text fill font_size =
     (case text_raises env xy of
        Some e \<Rightarrow> Inl e
      | None \<Rightarrow> Inr (add_op c (Text xy text fill font_size)))"

definition draw_rectangle ::
  "'n env \<Rightarrow> canvas \<Rightarrow> int \<times> int \<times> int \<times> int \<Rightarrow> nat \<Rightarrow> error + canvas" where
  "draw_rectangle env c box fill =
     (case rectangle_raises env box of
        Some e \<Rightarrow> Inl e
      | None \<Rightarrow> Inr (add_op c (Rectangle box fill)))"

text \<open>
  \<^verbatim>\<open>img.paste(im, box, mask)\<close> with the upper left corner as \<open>box\<close>. \<^verbatim>\<open>paste\<close> extends the
  corner to the box \<open>(x, y, x + width, y + height)\<close> and hands it to the C layer, which
  \<^item> reads the four coordinates as C ints and raises OverflowError when one does not fit
    (\<open>c_int\<close>: from \<open>- 2 ^ 31\<close> up to \<open>2 ^ 31 - 1\<close>);
  \<^item> raises ValueError when the mask's size is not the pasted image's;
  \<^item> clips the box to the canvas and returns when nothing of it is left
    (\<open>box_visible\<close>);
  \<^item> raises ValueError for a mask that is no transparency mask: a mask of mode
    \<^verbatim>\<open>"P"\<close>, of the two modes modelled.
\<close>

definition c_int :: "int \<Rightarrow> bool" where
  "c_int v \<longleftrightarrow> - (2 ^ 31) \<le> v \<and> v < 2 ^ 31"

definition box_visible :: "canvas \<Rightarrow> int \<times> int \<Rightarrow> nat \<times> nat \<Rightarrow> bool" where
  "box_visible c box sz =
     (case box of (x, y) \<Rightarrow>
        max x 0 < min (x + int (fst sz)) (int (cwidth c))
        \<and> max y 0 < min (y + int (snd sz)) (int (cheight c)))"

definition paste :: "canvas \<Rightarrow> image \<Rightarrow> int \<times> int \<Rightarrow> image \<Rightarrow> error + canvas" where
  "paste c im box m =
     (case box of (x, y) \<Rightarrow>
        if \<not> (c_int x \<and> c_int y \<and> c_int (x + int (width im)) \<and> c_int (y + int (height im)))
        then Inl OverflowError
        else if width m \<noteq> width im \<or> height m \<noteq> height im then Inl ValueError
        else if box_visible c box (width im, height im) \<and> mode m \<noteq> Mode1 then Inl ValueError
        else Inr (add_op c (Paste im box m)))"

text \<open>
  \<^verbatim>\<open>img.paste(tile, box)\<close> of a tile, without a mask: the same reading of the box as C
  ints.
\<close>

definition paste_canvas :: "canvas \<Rightarrow> canvas \<Rightarrow> int \<times> int \<Rightarrow> error + canvas" where
  "paste_canvas c tile box =
     (case box of (x, y) \<Rightarrow>
        if \<not> (c_int x \<and> c_int y \<and> c_int (x + int (cwidth tile))
                \<and> c_int (y + int (cheight tile)))
        then Inl OverflowError
        else Inr (add_op c (PasteCanvas tile box)))"

text \<open>
  \<^verbatim>\<open>int(a / b)\<close> for integers \<open>a\<close> and \<open>b > 0\<close>: \<^verbatim>\<open>/\<close> is float division and \<^verbatim>\<open>int\<close>
  truncates toward zero. For \<open>\<bar>a\<bar> < 2 ^ 53\<close> and the divisors 2 and 3 of the source the
  result is the truncated quotient.
\<close>

definition int_truediv :: "int \<Rightarrow> int \<Rightarrow> int" where
  "int_truediv a b = (if 0 \<le> a then a div b else - ((- a) div b))"

text \<open>
  \<^verbatim>\<open>icons[icon_name]\<close> and \<^verbatim>\<open>masks[icon_name]\<close>: the dicts have string keys, so the key
  \<^verbatim>\<open>None\<close> that \<^verbatim>\<open>lookup_icon\<close> can return raises KeyError, as a missing name does.
\<close>

definition dict_get :: "(string \<rightharpoonup> 'v) \<Rightarrow> string option \<Rightarrow> error + 'v" where
  "dict_get d k =
     (case k of
        None \<Rightarrow> Inl KeyError
      | Some name \<Rightarrow> (case d name of None \<Rightarrow> Inl KeyError | Some v \<Rightarrow> Inr v))"

text \<open>
  \<^verbatim>\<open>lookup_icon(data_point['icon'])\<close> on a value of the document: a value that is not a
  string is \<^verbatim>\<open>in\<close> no list of strings.
\<close>

definition lookup_icon_value :: "'n jvalue \<Rightarrow> string option" where
  "lookup_icon_value v = (case v of JStr s \<Rightarrow> lookup_icon s | _ \<Rightarrow> None)"

text \<open>The text handed to \<^verbatim>\<open>font.getsize\<close> and \<^verbatim>\<open>draw.text\<close> must be a string.\<close>

definition str_value :: "'n jvalue \<Rightarrow> error + string" where
  "str_value v = (case v of JStr s \<Rightarrow> Inr s | _ \<Rightarrow> Inl TypeError)"

section \<open>Current conditions (lines 67-90)\<close>

text \<open>
  The running \<^verbatim>\<open>offset\<close> of the source is rebound by each \<open>let\<close>. A missing key raises
  KeyError at the line that reads it, after the texts above it were drawn.
\<close>

definition show_current_weather ::
  "'n env \<Rightarrow> canvas \<Rightarrow> 'n jvalue \<Rightarrow> inky \<Rightarrow> int \<Rightarrow> error + canvas \<times> int" where
  "show_current_weather env draw data_point inky_display h_offset =
     (let offset = h_offset in
      thn (getitem data_point ''summary'') (\<lambda>summary_value.
      thn (str_value summary_value) (\<lambda>summary.
      let (text_w, text_h) = getsize env LARGE_FONT_SIZE summary in
      thn (draw_text env draw
             (CFloat (of_int (WIDTH inky_display - text_w) / 2),
              CFloat (of_int offset + of_int (int SUMMARY_H - text_h) / 2))
             summary (RED inky_display) LARGE_FONT_SIZE) (\<lambda>draw.
      let offset = offset + int SUMMARY_H in
      thn (getitem data_point ''pressure'') (\<lambda>pressure.
      thn (round1 env pressure) (\<lambda>pressure_1.
      let text_pressure = ''Pressure '' @ pressure_1;
          (text_pressure_w, text_pressure_h) = getsize env MEDIUM_FONT_SIZE text_pressure
      in
      thn (draw_text env draw
             (CFloat (of_int (WIDTH inky_display - text_pressure_w) / 2), CInt offset)
             text_pressure (BLACK inky_display) MEDIUM_FONT_SIZE) (\<lambda>draw.
      let offset = offset + int LARGE_FONT_SIZE in
      thn (getitem data_point ''windSpeed'') (\<lambda>wind_speed.
      thn (round1 env wind_speed) (\<lambda>wind_speed_1.
      let text_wind_speed = ''Wind speed '' @ wind_speed_1;
          (text_wind_speed_w, text_wind_speed_h) = getsize env MEDIUM_FONT_SIZE text_wind_speed
      in
      thn (draw_text env draw
             (CFloat (of_int (WIDTH inky_display - text_wind_speed_w) / 2), CInt offset)
             text_wind_speed (BLACK inky_display) MEDIUM_FONT_SIZE) (\<lambda>draw.
      let offset = offset + int LARGE_FONT_SIZE in
      thn (getitem data_point ''visibility'') (\<lambda>visibility.
      thn (round1 env visibility) (\<lambda>visibility_1.
      let text_visibility = ''Visibility '' @ visibility_1;
          (text_visibility_w, text_visibility_h) = getsize env MEDIUM_FONT_SIZE text_visibility
      in
      thn (draw_text env draw
             (CFloat (of_int (WIDTH inky_display - text_visibility_w) / 2), CInt offset)
             text_visibility (BLACK inky_display) MEDIUM_FONT_SIZE) (\<lambda>draw.
      let offset = offset + int LARGE_FONT_SIZE in
      thn (getitem data_point ''ozone'') (\<lambda>ozone.
      thn (round1 env ozone) (\<lambda>ozone_1.
      let text_ozone = ''Ozone '' @ ozone_1;
          (text_ozone_w, text_ozone_h) = getsize env MEDIUM_FONT_SIZE text_ozone
      in
      thn (draw_text env draw
             (CFloat (of_int (WIDTH inky_display - text_ozone_w) / 2), CInt offset)
             text_ozone (BLACK inky_display) MEDIUM_FONT_SIZE) (\<lambda>draw.
      let offset = offset + int LARGE_FONT_SIZE in
      Inr (draw, offset + 10)))))))))))))))))"

section \<open>The icon bar (lines 92-103)\<close>

text \<open>
  Line 102 reads \<^verbatim>\<open>icon_image\<close>, which is no parameter and no local of the function: it
  is the module's global of that name, assigned by the loading loop of the main block
  (line 138) at each icon file. \<open>icon_image\<close> is that global: \<open>None\<close> while it was never
  assigned (reading it raises NameError), else the image of the icon file loaded last.
\<close>

definition show_current_weather_icon ::
  "'n env \<Rightarrow> image option \<Rightarrow> canvas \<Rightarrow> 'n jvalue \<Rightarrow> inky \<Rightarrow> (string \<rightharpoonup> image)
     \<Rightarrow> (string \<rightharpoonup> image) \<Rightarrow> int \<Rightarrow> error + canvas \<times> int" where
  "show_current_weather_icon env icon_image img data_point inky_display icons masks h_offset =
     thn (getitem data_point ''temperature'') (\<lambda>temperature.
     thn (round1 env temperature) (\<lambda>temperature_1.
     thn (getitem data_point ''apparentTemperature'') (\<lambda>apparent.
     thn (round1 env apparent) (\<lambda>apparent_1.
     let temp_text = temperature_1 @ ''C feels like '' @ apparent_1 @ ''C'';
         (text_w, text_h) = getsize env SMALL_FONT_SIZE temp_text
     in
     thn (getitem data_point ''icon'') (\<lambda>icon_value.
     let icon_name = lookup_icon_value icon_value in
     thn (dict_get icons icon_name) (\<lambda>icon.
     thn (draw_rectangle env img
            (0, h_offset, WIDTH inky_display, h_offset + int (height icon))
            (BLACK inky_display)) (\<lambda>img.
     thn (draw_text env img
            (CInt 8, CFloat (of_int h_offset + of_int (int (height icon) - text_h) / 2))
            temp_text (WHITE inky_display) SMALL_FONT_SIZE) (\<lambda>img.
     thn (getitem data_point ''precipProbability'') (\<lambda>precip.
     thn (round1 env precip) (\<lambda>precip_1.
     let temp_text = ''Precip. chance: '' @ precip_1 @ ''%'';
         (text_w, text_h) = getsize env SMALL_FONT_SIZE temp_text
     in
     thn (draw_text env img
            (CInt (WIDTH inky_display - text_w - 8),
             CFloat (of_int h_offset + of_int (int (height icon) - text_h) / 2))
            temp_text (WHITE inky_display) SMALL_FONT_SIZE) (\<lambda>img.
     (case icon_image of
        None \<Rightarrow> Inl NameError
      | Some last_icon \<Rightarrow>
          thn (dict_get masks icon_name) (\<lambda>icon_mask.
          thn (paste img icon
                 (int_truediv (WIDTH inky_display - int (width last_icon)) 2, h_offset)
                 icon_mask) (\<lambda>img.
          Inr (img, h_offset + int (height icon))))))))))))))))"

section \<open>A forecast tile (lines 105-116)\<close>

text \<open>
  \<^verbatim>\<open>inky_display\<close> is read from the module's globals (lines 110, 112, 116); \<open>img\<close> is the
  tile.
\<close>

definition draw_weather_tile ::
  "'n env \<Rightarrow> inky \<Rightarrow> canvas \<Rightarrow> 'n jvalue \<Rightarrow> (string \<rightharpoonup> image) \<Rightarrow> (string \<rightharpoonup> image)
     \<Rightarrow> 'n jvalue \<Rightarrow> error + canvas" where
  "draw_weather_tile env inky_display img data_point icons masks timezone =
     thn (getitem data_point ''time'') (\<lambda>time_value.
     thn (day_name env time_value timezone) (\<lambda>time_text.
     let (time_text_w, time_text_h) = getsize env MEDIUM_FONT_SIZE time_text in
     thn (draw_text env img
            (CInt (int_truediv (int (cwidth img) - time_text_w) 2), CInt 0)
            time_text (RED inky_display) MEDIUM_FONT_SIZE) (\<lambda>img.
     thn (getitem data_point ''icon'') (\<lambda>icon_value.
     let icon_name = lookup_icon_value icon_value in
     thn (dict_get icons icon_name) (\<lambda>icon.
     thn (draw_rectangle env img
            (0, time_text_h, int (cwidth img), time_text_h + int (height icon))
            (BLACK inky_display)) (\<lambda>img.
     thn (dict_get masks icon_name) (\<lambda>icon_mask.
     thn (paste img icon
            (int_truediv (int (cwidth img) - int (width icon)) 2, time_text_h)
            icon_mask) (\<lambda>img.
     thn (getitem data_point ''temperatureLow'') (\<lambda>low.
     thn (round1 env low) (\<lambda>low_1.
     thn (getitem data_point ''temperatureHigh'') (\<lambda>high.
     thn (round1 env high) (\<lambda>high_1.
     let temp_text = low_1 @ ''C to '' @ high_1 @ ''C'';
         (temp_text_w, temp_text_h) = getsize env MEDIUM_FONT_SIZE temp_text
     in
     draw_text env img
       (CFloat (of_int (int (cwidth img) - temp_text_w) / 2),
        CInt (time_text_h + int (height icon)))
       temp_text (BLACK inky_display) MEDIUM_FONT_SIZE))))))))))))"

section \<open>The main block (lines 119-157)\<close>

text \<open>
  The loading loop of lines 136-140 over the icon files that \<^verbatim>\<open>glob\<close> found, each given
  by the name that line 137 cuts out of its path and the image that \<^verbatim>\<open>Image.open\<close>
  decoded. The state is the dicts \<^verbatim>\<open>icons\<close> and \<^verbatim>\<open>masks\<close> and the global \<^verbatim>\<open>icon_image\<close>.
\<close>

fun load_icons ::
  "inky \<Rightarrow> (string \<times> image) list
     \<Rightarrow> (string \<rightharpoonup> image) \<times> (string \<rightharpoonup> image) \<times> image option
     \<Rightarrow> error + (string \<rightharpoonup> image) \<times> (string \<rightharpoonup> image) \<times> image option" where
  "load_icons inky_display [] state = Inr state"
| "load_icons inky_display ((icon_name, icon_image) # rest) (icons, masks, last_icon) =
     (case create_mask icon_image
             [WHITE inky_display, BLACK inky_display, RED inky_display] of
        Inl e \<Rightarrow> Inl e
      | Inr icon_mask \<Rightarrow>
          load_icons inky_display rest
            (icons(icon_name \<mapsto> icon_image), masks(icon_name \<mapsto> icon_mask), Some icon_image))"

text \<open>
  The loop of lines 148-152 over the columns still to draw.
\<close>

fun tiles_loop ::
  "'n env \<Rightarrow> inky \<Rightarrow> 'n jvalue \<Rightarrow> (string \<rightharpoonup> image) \<Rightarrow> (string \<rightharpoonup> image)
     \<Rightarrow> int \<Rightarrow> int \<Rightarrow> int \<Rightarrow> nat list \<Rightarrow> canvas \<Rightarrow> error + canvas" where
  "tiles_loop env inky_display res icons masks tile_w tile_h used_h [] img = Inr img"
| "tiles_loop env inky_display res icons masks tile_w tile_h used_h (i # rest) img =
     (case Image_new_P (tile_w, tile_h) (WHITE inky_display) of
        Inl e \<Rightarrow> Inl e
      | Inr tile \<Rightarrow>
          (case thn (getitem res ''daily'') (\<lambda>daily.
                thn (getitem daily ''data'') (\<lambda>data.
                thn (getindex data i) (\<lambda>data_point.
                thn (getitem res ''timezone'') (\<lambda>timezone.
                draw_weather_tile env inky_display tile data_point icons masks timezone)))) of
             Inl e \<Rightarrow> Inl e
           | Inr tile \<Rightarrow>
               (case paste_canvas img tile (int i * tile_w, used_h) of
                  Inl e \<Rightarrow> Inl e
                | Inr img \<Rightarrow>
                    tiles_loop env inky_display res icons masks tile_w tile_h used_h rest
                      img)))"

text \<open>
  What the driver is given: \<^verbatim>\<open>inky_display.set_image(img.rotate(180))\<close>.
\<close>

datatype shown = Rotated180 canvas

text \<open>
  The main block after argument parsing: \<open>latitude\<close>, \<open>longitude\<close> and \<open>dskey\<close> are the
  parsed arguments, \<open>inky_display\<close> the driver object and \<open>icon_files\<close> the icon files
  found.
\<close>

definition main ::
  "'n env \<Rightarrow> (string \<Rightarrow> error + 'n response) \<Rightarrow> string \<Rightarrow> string \<Rightarrow> string \<Rightarrow> inky
     \<Rightarrow> (string \<times> image) list \<Rightarrow> error + shown" where
  "main env requests_get latitude longitude dskey inky_display icon_files =
     thn (get_weather requests_get latitude longitude dskey) (\<lambda>res.
     thn (load_icons inky_display icon_files (Map.empty, Map.empty, None))
       (\<lambda>(icons, masks, icon_image).
     thn (Image_new_P (WIDTH inky_display, HEIGHT inky_display) (WHITE inky_display)) (\<lambda>img.
     thn (getitem res ''currently'') (\<lambda>currently.
     thn (show_current_weather env img currently inky_display 0) (\<lambda>(img, used_h).
     thn (getitem res ''currently'') (\<lambda>currently.
     thn (show_current_weather_icon env icon_image img currently inky_display icons masks used_h)
       (\<lambda>(img, used_h).
     let tile_w = int_truediv (WIDTH inky_display) (int FORECARST_COLUMNS);
         tile_h = HEIGHT inky_display - used_h
     in
     thn (tiles_loop env inky_display res icons masks tile_w tile_h used_h
            [0..<FORECARST_COLUMNS] img) (\<lambda>img.
     thn (getitem res ''timezone'') (\<lambda>timezone.
     thn (now_stamp env timezone) (\<lambda>stamp.
     let timestamp = ''Data loaded at '' @ stamp in
     thn (draw_text env img (CInt 8, CInt (HEIGHT inky_display - int SMALL_FONT_SIZE))
            timestamp (RED inky_display) SMALL_FONT_SIZE) (\<lambda>img.
     Inr (Rotated180 img))))))))))))"

section \<open>Observations and preconditions\<close>

text \<open>
  \<open>ok r\<close>: the computation returned. \<open>has_metric env data_point k\<close>: the reading has the key
  \<open>k\<close> and \<^verbatim>\<open>round\<close> accepts its value.
\<close>

definition ok :: "error + 'a \<Rightarrow> bool" where
  "ok r = (case r of Inl _ \<Rightarrow> False | Inr _ \<Rightarrow> True)"

definition has_metric :: "'n env \<Rightarrow> 'n jvalue \<Rightarrow> string \<Rightarrow> bool" where
  "has_metric env data_point k = ok (thn (getitem data_point k) (round1 env))"

text \<open>
  The rows a drawn text covers: from its anchor down by the height \<^verbatim>\<open>getsize\<close> reports.
\<close>

definition text_rows :: "'n env \<Rightarrow> draw_op \<Rightarrow> (rat \<times> rat) option" where
  "text_rows env op =
     (case op of
        Text xy text fill font_size \<Rightarrow>
          Some (coord_value (snd xy),
                coord_value (snd xy) + of_int (snd (getsize env font_size text)))
      | _ \<Rightarrow> None)"

text \<open>
  The icon that a reading selects: \<^verbatim>\<open>icons[lookup_icon(data_point['icon'])]\<close>, when it
  exists.
\<close>

definition icon_of :: "(string \<rightharpoonup> image) \<Rightarrow> 'n jvalue \<Rightarrow> image option" where
  "icon_of icons data_point =
     (case getitem data_point ''icon'' of
        Inl e \<Rightarrow> None
      | Inr icon_value \<Rightarrow>
          (case lookup_icon_value icon_value of None \<Rightarrow> None | Some icon_name \<Rightarrow> icons icon_name))"

text \<open>
  The icons and the tiles pasted on a canvas, in order, with the corners they were pasted
  at; the size and corner of a pasted tile, the box of pixels it covers (left, top, right,
  bottom; right and bottom excluded), and whether two boxes share a pixel.
\<close>

fun pasted_icons :: "draw_op list \<Rightarrow> (image \<times> (int \<times> int)) list" where
  "pasted_icons [] = []"
| "pasted_icons (Paste im box m # ops) = (im, box) # pasted_icons ops"
| "pasted_icons (_ # ops) = pasted_icons ops"

fun pasted_tiles :: "draw_op list \<Rightarrow> (canvas \<times> (int \<times> int)) list" where
  "pasted_tiles [] = []"
| "pasted_tiles (PasteCanvas tile box # ops) = (tile, box) # pasted_tiles ops"
| "pasted_tiles (_ # ops) = pasted_tiles ops"

definition tile_geometry :: "canvas \<times> (int \<times> int) \<Rightarrow> int \<times> int \<times> int \<times> int" where
  "tile_geometry p = (case p of (tile, (x, y)) \<Rightarrow> (int (cwidth tile), int (cheight tile), x, y))"

definition tile_box :: "canvas \<times> (int \<times> int) \<Rightarrow> int \<times> int \<times> int \<times> int" where
  "tile_box p =
     (case p of (tile, (x, y)) \<Rightarrow> (x, y, x + int (cwidth tile), y + int (cheight tile)))"

definition boxes_overlap :: "int \<times> int \<times> int \<times> int \<Rightarrow> int \<times> int \<times> int \<times> int \<Rightarrow> bool" where
  "boxes_overlap a b =
     (case a of (left1, top1, right1, bottom1) \<Rightarrow>
      case b of (left2, top2, right2, bottom2) \<Rightarrow>
        left1 < right2 \<and> left2 < right1 \<and> top1 < bottom2 \<and> top2 < bottom1)"

text \<open>
  A current-conditions reading and a daily reading that hold what the renderers read, and
  masks of mode \<^verbatim>\<open>"1"\<close> that have the size of their icons.
\<close>

definition current_ok :: "'n env \<Rightarrow> (string \<rightharpoonup> image) \<Rightarrow> 'n jvalue \<Rightarrow> bool" where
  "current_ok env icons data_point \<longleftrightarrow>
     ok (thn (getitem data_point ''summary'') str_value)
     \<and> has_metric env data_point ''pressure'' \<and> has_metric env data_point ''windSpeed''
     \<and> has_metric env data_point ''visibility'' \<and> has_metric env data_point ''ozone''
     \<and> has_metric env data_point ''temperature''
     \<and> has_metric env data_point ''apparentTemperature''
     \<and> has_metric env data_point ''precipProbability''
     \<and> icon_of icons data_point \<noteq> None"

definition daily_ok :: "'n env \<Rightarrow> (string \<rightharpoonup> image) \<Rightarrow> 'n jvalue \<Rightarrow> 'n jvalue \<Rightarrow> bool" where
  "daily_ok env icons timezone data_point \<longleftrightarrow>
     ok (thn (getitem data_point ''time'') (\<lambda>t. day_name env t timezone))
     \<and> icon_of icons data_point \<noteq> None
     \<and> has_metric env data_point ''temperatureLow''
     \<and> has_metric env data_point ''temperatureHigh''"

definition masks_fit :: "(string \<rightharpoonup> image) \<Rightarrow> (string \<rightharpoonup> image) \<Rightarrow> bool" where
  "masks_fit icons masks \<longleftrightarrow>
     (\<forall>icon_name icon. icons icon_name = Some icon \<longrightarrow>
        (\<exists>icon_mask. masks icon_name = Some icon_mask \<and> mode icon_mask = Mode1
           \<and> width icon_mask = width icon \<and> height icon_mask = height icon))"

text \<open>
  The ranges in which the layout is proved to draw. \<open>drawing_accepts\<close>: the drawing layer
  accepts every text anchor and every rectangle (left before right, top before bottom)
  whose coordinates are at most \<open>2 ^ 30\<close> in absolute value; such a coordinate fits a C
  int, so a C long, with room for the few pixels a glyph is offset by. \<open>font_bounded\<close>:
  the font reports text sizes from 0 to \<open>2 ^ 28\<close>. \<open>small_image\<close>: an image at most
  \<open>2 ^ 28\<close> wide and high.
\<close>

definition drawing_accepts :: "'n env \<Rightarrow> bool" where
  "drawing_accepts env \<longleftrightarrow>
     (\<forall>x y. \<bar>coord_value x\<bar> \<le> 2 ^ 30 \<and> \<bar>coord_value y\<bar> \<le> 2 ^ 30 \<longrightarrow>
        text_raises env (x, y) = None)
     \<and> (\<forall>x0 y0 x1 y1. \<bar>x0\<bar> \<le> 2 ^ 30 \<and> \<bar>y0\<bar> \<le> 2 ^ 30 \<and> \<bar>x1\<bar> \<le> 2 ^ 30 \<and> \<bar>y1\<bar> \<le> 2 ^ 30
            \<and> x0 \<le> x1 \<and> y0 \<le> y1 \<longrightarrow>
        rectangle_raises env (x0, y0, x1, y1) = None)"

definition font_bounded :: "'n env \<Rightarrow> bool" where
  "font_bounded env \<longleftrightarrow>
     (\<forall>font_size text.
        0 \<le> fst (getsize env font_size text) \<and> fst (getsize env font_size text) \<le> 2 ^ 28
        \<and> 0 \<le> snd (getsize env font_size text) \<and> snd (getsize env font_size text) \<le> 2 ^ 28)"

definition small_image :: "image \<Rightarrow> bool" where
  "small_image im \<longleftrightarrow> int (width im) \<le> 2 ^ 28 \<and> int (height im) \<le> 2 ^ 28"

section \<open>A test display, fonts and documents\<close>

text \<open>
  The constants of \<^verbatim>\<open>InkyWHAT\<close>, stand-ins for the font and date libraries, a reading, two
  icons of different widths and a forecast document with three daily entries. The
  stand-in for the drawing layer reads every coordinate as a C long of 64 bits.
\<close>

definition inky_what :: inky where
  "inky_what = \<lparr>WIDTH = 400, HEIGHT = 300, WHITE = 0, BLACK = 1, RED = 2\<rparr>"

definition c_long :: "rat \<Rightarrow> bool" where
  "c_long v \<longleftrightarrow> - (2 ^ 63) \<le> v \<and> v < 2 ^ 63"

definition test_env :: "int env" where
  "test_env =
     \<lparr>getsize = (\<lambda>font_size text. (int (min (length text) 40) * 8, 20)),
      round1 = (\<lambda>v. case v of JNum n \<Rightarrow> Inr ''7.5'' | _ \<Rightarrow> Inl TypeError),
      day_name = (\<lambda>t tz. case t of JNum n \<Rightarrow> Inr ''Monday'' | _ \<Rightarrow> Inl TypeError),
      now_stamp = (\<lambda>tz. case tz of JStr z \<Rightarrow> Inr ''12:00:00 01 Jan 2020'' | _ \<Rightarrow> Inl CollaboratorError),
      text_raises = (\<lambda>xy. if c_long (coord_value (fst xy)) \<and> c_long (coord_value (snd xy))
                           then None else Some SystemError),
      rectangle_raises = (\<lambda>box. case box of (x0, y0, x1, y1) \<Rightarrow>
                           if c_long (of_int x0) \<and> c_long (of_int y0)
                              \<and> c_long (of_int x1) \<and> c_long (of_int y1)
                           then None else Some SystemError)\<rparr>"

definition test_reading :: "int jvalue" where
  "test_reading =
     JDict [(''summary'', JStr ''Clear''), (''icon'', JStr ''clear-day''),
            (''temperature'', JNum 20), (''apparentTemperature'', JNum 19),
            (''pressure'', JNum 1013), (''windSpeed'', JNum 3), (''visibility'', JNum 10),
            (''ozone'', JNum 300), (''precipProbability'', JNum 0),
            (''time'', JNum 1577836800), (''temperatureLow'', JNum 5),
            (''temperatureHigh'', JNum 21)]"

definition sun_icon :: image where
  "sun_icon = \<lparr>mode = ModeP, width = 4, height = 2, pixels = [0, 1, 2, 3, 3, 2, 1, 0]\<rparr>"

definition wind_icon :: image where
  "wind_icon = \<lparr>mode = ModeP, width = 2, height = 2, pixels = [1, 1, 5, 1]\<rparr>"

definition test_doc :: "int jvalue" where
  "test_doc =
     JDict [(''currently'', test_reading),
            (''daily'', JDict [(''data'', JList [test_reading, test_reading, test_reading])]),
            (''timezone'', JStr ''Europe/London'')]"

definition test_response :: "int response" where
  "test_response = \<lparr>status_code = 200, json = Inr test_doc\<rparr>"

section \<open>Properties of the icon classification\<close>

lemma lookup_icon_loop_None:
  "icon_name \<notin> \<Union> (set ` set (map snd table)) \<Longrightarrow> lookup_icon_loop table icon_name = None"
  by (induction table icon_name rule: lookup_icon_loop.induct) auto

lemma lookup_icon_loop_Some:
  "lookup_icon_loop table icon_name = Some icon \<Longrightarrow>
     \<exists>codes. (icon, codes) \<in> set table \<and> icon_name \<in> set codes"
  by (induction table icon_name rule: lookup_icon_loop.induct) (auto split: if_splits)

text \<open>
  Claim C2. The code lists of \<open>icon_map\<close> are pairwise disjoint: two entries of the table
  with different categories share no code. Every code of a category's list is looked up
  to that category, and \<open>clear-day\<close> is looked up to \<open>sun\<close>.
\<close>

theorem icon_map_disjoint_and_lookup_owner:
  "(\<forall>(icon1, codes1) \<in> set icon_map. \<forall>(icon2, codes2) \<in> set icon_map.
      icon1 \<noteq> icon2 \<longrightarrow> set codes1 \<inter> set codes2 = {})
   \<and> distinct (map fst icon_map)
   \<and> (\<forall>(icon, codes) \<in> set icon_map. \<forall>code \<in> set codes. lookup_icon code = Some icon)
   \<and> lookup_icon ''clear-day'' = Some ''sun''"
  by (simp add: icon_map_def lookup_icon_def)

theorem icon_map_disjoint_and_lookup_owner_witness:
  "(''cloud'', [''fog'', ''cloudy'', ''partly-cloudy-day'', ''partly-cloudy-night'']) \<in> set icon_map
   \<and> (''wind'', [''wind'']) \<in> set icon_map
   \<and> set [''fog'', ''cloudy'', ''partly-cloudy-day'', ''partly-cloudy-night''] \<inter> set [''wind''] = {}
   \<and> lookup_icon ''partly-cloudy-night'' = Some ''cloud''"
proof -
  have c: "(''cloud'', [''fog'', ''cloudy'', ''partly-cloudy-day'', ''partly-cloudy-night''])
             \<in> set icon_map"
    by (simp add: icon_map_def)
  have w: "(''wind'', [''wind'']) \<in> set icon_map"
    by (simp add: icon_map_def)
  have m: "''partly-cloudy-night''
             \<in> set [''fog'', ''cloudy'', ''partly-cloudy-day'', ''partly-cloudy-night'']"
    by simp
  note t = icon_map_disjoint_and_lookup_owner
  from t c w have
    "set [''fog'', ''cloudy'', ''partly-cloudy-day'', ''partly-cloudy-night''] \<inter> set [''wind''] = {}"
    by fastforce
  moreover from t c m have "lookup_icon ''partly-cloudy-night'' = Some ''cloud''"
    by fastforce
  ultimately show ?thesis using c w by blast
qed

text \<open>
  Claim C6. A code that is in no category's code list is looked up to \<^verbatim>\<open>None\<close>.
\<close>

theorem lookup_icon_unknown_code:
  "code \<notin> \<Union> (set ` set (map snd icon_map)) \<Longrightarrow> lookup_icon code = None"
  unfolding lookup_icon_def by (rule lookup_icon_loop_None)

theorem lookup_icon_unknown_code_witness:
  "''hail'' \<notin> \<Union> (set ` set (map snd icon_map)) \<and> lookup_icon ''hail'' = None"
proof -
  have h: "''hail'' \<notin> \<Union> (set ` set (map snd icon_map))"
    by (simp add: icon_map_def)
  from lookup_icon_unknown_code [OF h] h show ?thesis by blast
qed

text \<open>
  Claim C10. The \<open>storm\<close> entry of the table has an empty code list, and no code is
  looked up to \<open>storm\<close>; so no value of a reading's \<open>icon\<close> field selects the \<open>storm\<close>
  icon.
\<close>

theorem lookup_icon_never_storm:
  "map_of icon_map ''storm'' = Some [] \<and> lookup_icon code \<noteq> Some ''storm''
   \<and> lookup_icon_value icon_value \<noteq> Some ''storm''"
proof -
  have no: "lookup_icon c \<noteq> Some ''storm''" for c
  proof
    assume "lookup_icon c = Some ''storm''"
    then obtain codes where "(''storm'', codes) \<in> set icon_map" and "c \<in> set codes"
      unfolding lookup_icon_def by (blast dest: lookup_icon_loop_Some)
    then show False by (auto simp: icon_map_def)
  qed
  moreover have "map_of icon_map ''storm'' = Some []"
    by (simp add: icon_map_def)
  moreover have "lookup_icon_value icon_value \<noteq> Some ''storm''"
    using no by (cases icon_value) (simp_all add: lookup_icon_value_def)
  ultimately show ?thesis by blast
qed

section \<open>Properties of the fetch\<close>

text \<open>
  Claim C5. When the request yields a response with status 200, \<open>get_weather\<close> returns what
  \<^verbatim>\<open>res.json()\<close> returns, the parsed body; for every other status it returns \<^verbatim>\<open>None\<close>
  (\<open>JNull\<close>), whatever the body holds.
\<close>

theorem get_weather_status:
  "requests_get (forecast_url latitude longitude key) = Inr res \<Longrightarrow>
     (status_code res = 200 \<longrightarrow> get_weather requests_get latitude longitude key = json res)
   \<and> (status_code res \<noteq> 200 \<longrightarrow> get_weather requests_get latitude longitude key = Inr JNull)"
  by (simp add: get_weather_def thn_def)

theorem get_weather_status_witness:
  "get_weather (\<lambda>url. Inr \<lparr>status_code = 200, json = Inr (JDict [(''timezone'', JStr ''Europe/London'')])\<rparr>)
       ''51.5'' ''-0.1'' ''k''
     = (Inr (JDict [(''timezone'', JStr ''Europe/London'')]) :: error + int jvalue)
   \<and> get_weather (\<lambda>url. Inr \<lparr>status_code = 503, json = Inr (JDict [(''timezone'', JStr ''Europe/London'')])\<rparr>)
       ''51.5'' ''-0.1'' ''k''
     = (Inr JNull :: error + int jvalue)"
  using get_weather_status [of "\<lambda>url. Inr \<lparr>status_code = 200, json = Inr (JDict [(''timezone'', JStr ''Europe/London'')])\<rparr>"
          "''51.5''" "''-0.1''" "''k''"
          "\<lparr>status_code = 200, json = Inr (JDict [(''timezone'', JStr ''Europe/London'')])\<rparr> :: int response"]
        get_weather_status [of "\<lambda>url. Inr \<lparr>status_code = 503, json = Inr (JDict [(''timezone'', JStr ''Europe/London'')])\<rparr>"
          "''51.5''" "''-0.1''" "''k''"
          "\<lparr>status_code = 503, json = Inr (JDict [(''timezone'', JStr ''Europe/London'')])\<rparr> :: int response"]
  by simp

section \<open>Properties of the transparency mask\<close>

lemma column_inv:
  assumes "wf_image source" "x < width source" "set ys \<subseteq> {..<height source}"
    "width mi = width source" "height mi = height source"
    "length (pixels mi) = width source * height source"
  shows "\<exists>mi'. create_mask_column source allowed x ys mi = Inr mi'
     \<and> mode mi' = mode mi \<and> width mi' = width source \<and> height mi' = height source
     \<and> length (pixels mi') = width source * height source
     \<and> (\<forall>i < width source * height source. pixels mi' ! i =
          (if (\<exists>y \<in> set ys. i = y * width source + x) \<and> pixels source ! i \<in> set allowed
           then 255 else pixels mi ! i))"
  using assms
proof (induction ys arbitrary: mi)
  case Nil
  then show ?case by simp
next
  case (Cons y ys)
  have y: "y < height source" using Cons.prems by simp
  have idx: "y * width source + x < width source * height source"
  proof -
    have "y * width source + x < y * width source + width source" using Cons.prems by simp
    also have "\<dots> = (Suc y) * width source" by simp
    also have "\<dots> \<le> height source * width source" using y by (intro mult_le_mono1) simp
    finally show ?thesis by (simp add: mult.commute)
  qed
  have gp: "getpixel source (x, y) = Inr (pixels source ! (y * width source + x))"
    using Cons.prems y by (simp add: getpixel_def)
  show ?case
  proof (cases "pixels source ! (y * width source + x) \<in> set allowed")
    case True
    let ?mi = "mi\<lparr>pixels := (pixels mi)[y * width source + x := 255]\<rparr>"
    have pp: "putpixel mi (x, y) 255 = Inr ?mi"
      using Cons.prems y by (simp add: putpixel_def)
    have "\<exists>mi'. create_mask_column source allowed x ys ?mi = Inr mi'
       \<and> mode mi' = mode ?mi \<and> width mi' = width source \<and> height mi' = height source
       \<and> length (pixels mi') = width source * height source
       \<and> (\<forall>i < width source * height source. pixels mi' ! i =
          (if (\<exists>y \<in> set ys. i = y * width source + x) \<and> pixels source ! i \<in> set allowed
           then 255 else pixels ?mi ! i))"
      using Cons.prems by (intro Cons.IH) simp_all
    then obtain mi' where r: "create_mask_column source allowed x ys ?mi = Inr mi'"
      "mode mi' = mode mi" "width mi' = width source" "height mi' = height source"
      "length (pixels mi') = width source * height source"
      "\<forall>i < width source * height source. pixels mi' ! i =
          (if (\<exists>y \<in> set ys. i = y * width source + x) \<and> pixels source ! i \<in> set allowed
           then 255 else pixels ?mi ! i)"
      by auto
    have "create_mask_column source allowed x (y # ys) mi = Inr mi'"
      using gp pp True r(1) by simp
    moreover have "\<forall>i < width source * height source. pixels mi' ! i =
          (if (\<exists>y' \<in> set (y # ys). i = y' * width source + x) \<and> pixels source ! i \<in> set allowed
           then 255 else pixels mi ! i)"
    proof (intro allI impI)
      fix i assume i: "i < width source * height source"
      show "pixels mi' ! i =
          (if (\<exists>y' \<in> set (y # ys). i = y' * width source + x) \<and> pixels source ! i \<in> set allowed
           then 255 else pixels mi ! i)"
      proof (cases "i = y * width source + x")
        case True
        with r(6) i \<open>pixels source ! (y * width source + x) \<in> set allowed\<close> Cons.prems(6)
        show ?thesis by simp
      next
        case False
        with r(6) i show ?thesis by simp
      qed
    qed
    ultimately show ?thesis using r by blast
  next
    case False
    have "\<exists>mi'. create_mask_column source allowed x ys mi = Inr mi'
       \<and> mode mi' = mode mi \<and> width mi' = width source \<and> height mi' = height source
       \<and> length (pixels mi') = width source * height source
       \<and> (\<forall>i < width source * height source. pixels mi' ! i =
          (if (\<exists>y \<in> set ys. i = y * width source + x) \<and> pixels source ! i \<in> set allowed
           then 255 else pixels mi ! i))"
      using Cons.prems by (intro Cons.IH) simp_all
    then obtain mi' where r: "create_mask_column source allowed x ys mi = Inr mi'"
      "mode mi' = mode mi" "width mi' = width source" "height mi' = height source"
      "length (pixels mi') = width source * height source"
      "\<forall>i < width source * height source. pixels mi' ! i =
          (if (\<exists>y \<in> set ys. i = y * width source + x) \<and> pixels source ! i \<in> set allowed
           then 255 else pixels mi ! i)"
      by auto
    have "create_mask_column source allowed x (y # ys) mi = Inr mi'"
      using gp False r(1) by simp
    moreover have "\<forall>i < width source * height source. pixels mi' ! i =
          (if (\<exists>y' \<in> set (y # ys). i = y' * width source + x) \<and> pixels source ! i \<in> set allowed
           then 255 else pixels mi ! i)"
      using r(6) False by auto
    ultimately show ?thesis using r by blast
  qed
qed

lemma columns_inv:
  assumes "wf_image source" "set xs \<subseteq> {..<width source}"
    "width mi = width source" "height mi = height source"
    "length (pixels mi) = width source * height source"
  shows "\<exists>mi'. create_mask_columns source allowed xs (height source) mi = Inr mi'
     \<and> mode mi' = mode mi \<and> width mi' = width source \<and> height mi' = height source
     \<and> length (pixels mi') = width source * height source
     \<and> (\<forall>i < width source * height source. pixels mi' ! i =
          (if (\<exists>x \<in> set xs. \<exists>y < height source. i = y * width source + x)
                \<and> pixels source ! i \<in> set allowed
           then 255 else pixels mi ! i))"
  using assms
proof (induction xs arbitrary: mi)
  case Nil
  then show ?case by simp
next
  case (Cons x xs)
  have "x < width source" using Cons.prems by simp
  moreover have "set [0..<height source] \<subseteq> {..<height source}" by auto
  ultimately obtain m1 where c: "create_mask_column source allowed x [0..<height source] mi = Inr m1"
      "mode m1 = mode mi" "width m1 = width source" "height m1 = height source"
      "length (pixels m1) = width source * height source"
      "\<forall>i < width source * height source. pixels m1 ! i =
          (if (\<exists>y \<in> set [0..<height source]. i = y * width source + x) \<and> pixels source ! i \<in> set allowed
           then 255 else pixels mi ! i)"
    using column_inv [of source x "[0..<height source]" mi allowed] Cons.prems by auto
  have "\<exists>mi'. create_mask_columns source allowed xs (height source) m1 = Inr mi'
     \<and> mode mi' = mode m1 \<and> width mi' = width source \<and> height mi' = height source
     \<and> length (pixels mi') = width source * height source
     \<and> (\<forall>i < width source * height source. pixels mi' ! i =
          (if (\<exists>x \<in> set xs. \<exists>y < height source. i = y * width source + x)
                \<and> pixels source ! i \<in> set allowed
           then 255 else pixels m1 ! i))"
    using Cons.prems c by (intro Cons.IH) simp_all
  then obtain m2 where r: "create_mask_columns source allowed xs (height source) m1 = Inr m2"
      "mode m2 = mode m1" "width m2 = width source" "height m2 = height source"
      "length (pixels m2) = width source * height source"
      "\<forall>i < width source * height source. pixels m2 ! i =
          (if (\<exists>x \<in> set xs. \<exists>y < height source. i = y * width source + x)
                \<and> pixels source ! i \<in> set allowed
           then 255 else pixels m1 ! i)"
    by auto
  have "create_mask_columns source allowed (x # xs) (height source) mi = Inr m2"
    using c(1) r(1) by simp
  moreover have "\<forall>i < width source * height source. pixels m2 ! i =
          (if (\<exists>x' \<in> set (x # xs). \<exists>y < height source. i = y * width source + x')
                \<and> pixels source ! i \<in> set allowed
           then 255 else pixels mi ! i)"
  proof (intro allI impI)
    fix i assume i: "i < width source * height source"
    show "pixels m2 ! i =
          (if (\<exists>x' \<in> set (x # xs). \<exists>y < height source. i = y * width source + x')
                \<and> pixels source ! i \<in> set allowed
           then 255 else pixels mi ! i)"
      using r(6) c(6) i by auto
  qed
  ultimately show ?case using r c by auto
qed

lemma index_decompose:
  assumes "i < w * h"
  shows "\<exists>x \<in> set [0..<w]. \<exists>y < h. i = y * w + (x::nat)"
proof -
  have w: "0 < w" using assms by (cases w) auto
  have "i mod w < w" using w by simp
  moreover have "i div w < h" using assms by (simp add: less_mult_imp_div_less mult.commute)
  moreover have "i = (i div w) * w + i mod w" by simp
  ultimately show ?thesis by (intro bexI [of _ "i mod w"] exI [of _ "i div w"]) auto
qed

lemma create_mask_closed_form:
  assumes "wf_image source"
  shows "create_mask source allowed = Inr (mask_of source allowed)"
proof -
  let ?w = "width source" and ?h = "height source"
  let ?mi = "Image_new Mode1 (?w, ?h)"
  have "\<exists>mi'. create_mask_columns source allowed [0..<?w] ?h ?mi = Inr mi'
     \<and> mode mi' = mode ?mi \<and> width mi' = ?w \<and> height mi' = ?h
     \<and> length (pixels mi') = ?w * ?h
     \<and> (\<forall>i < ?w * ?h. pixels mi' ! i =
          (if (\<exists>x \<in> set [0..<?w]. \<exists>y < ?h. i = y * ?w + x)
                \<and> pixels source ! i \<in> set allowed
           then 255 else pixels ?mi ! i))"
    using assms by (intro columns_inv) (auto simp: Image_new_def)
  then obtain m where m: "create_mask_columns source allowed [0..<?w] ?h ?mi = Inr m"
     "mode m = Mode1" "width m = ?w" "height m = ?h" "length (pixels m) = ?w * ?h"
     "\<forall>i < ?w * ?h. pixels m ! i =
          (if (\<exists>x \<in> set [0..<?w]. \<exists>y < ?h. i = y * ?w + x)
                \<and> pixels source ! i \<in> set allowed
           then 255 else pixels ?mi ! i)"
    by (auto simp: Image_new_def)
  have len: "length (pixels source) = ?w * ?h" using assms by (simp add: wf_image_def)
  have "pixels m = map (\<lambda>p. if p \<in> set allowed then 255 else 0) (pixels source)"
  proof (rule nth_equalityI)
    show "length (pixels m) = length (map (\<lambda>p. if p \<in> set allowed then 255 else 0) (pixels source))"
      using m(5) len by simp
  next
    fix i assume "i < length (pixels m)"
    then have i: "i < ?w * ?h" using m(5) by simp
    from index_decompose [OF i] have d: "\<exists>x \<in> set [0..<?w]. \<exists>y < ?h. i = y * ?w + x" .
    have "pixels m ! i = (if pixels source ! i \<in> set allowed then 255 else pixels ?mi ! i)"
      using m(6) i d by simp
    also have "pixels ?mi ! i = 0" using i by (simp add: Image_new_def)
    finally show "pixels m ! i = map (\<lambda>p. if p \<in> set allowed then 255 else 0) (pixels source) ! i"
      using i len by simp
  qed
  then have "m = mask_of source allowed"
    using m(2-4) by (simp add: mask_of_def)
  then show ?thesis using m(1) by (simp add: create_mask_def Let_def)
qed

text \<open>
  Claim C1. For a paletted source image and any allowed indices, \<open>create_mask\<close> returns a
  mask of mode \<^verbatim>\<open>"1"\<close> with the size of the source, whose pixel at every coordinate is 255
  when the source pixel there is an allowed index and 0 otherwise.
\<close>

theorem create_mask_pixels:
  assumes "wf_image source"
  shows "\<exists>m. create_mask source allowed = Inr m
     \<and> mode m = Mode1 \<and> width m = width source \<and> height m = height source
     \<and> (\<forall>x < width source. \<forall>y < height source.
          \<exists>p. getpixel source (x, y) = Inr p
             \<and> getpixel m (x, y) = Inr (if p \<in> set allowed then 255 else 0))"
proof -
  let ?m = "mask_of source allowed"
  have len: "length (pixels source) = width source * height source"
    using assms by (simp add: wf_image_def)
  have "\<exists>p. getpixel source (x, y) = Inr p
             \<and> getpixel ?m (x, y) = Inr (if p \<in> set allowed then 255 else 0)"
    if "x < width source" "y < height source" for x y
  proof -
    have "y * width source + x < y * width source + width source" using that by simp
    also have "\<dots> = Suc y * width source" by simp
    also have "\<dots> \<le> height source * width source" using that by (intro mult_le_mono1) simp
    finally have "y * width source + x < length (pixels source)"
      using len by (simp add: mult.commute)
    then show ?thesis using that by (simp add: getpixel_def mask_of_def)
  qed
  moreover have "mode ?m = Mode1" "width ?m = width source" "height ?m = height source"
    by (simp_all add: mask_of_def)
  ultimately show ?thesis
    using create_mask_closed_form [OF assms, of allowed] by blast
qed

theorem create_mask_pixels_witness:
  "wf_image \<lparr>mode = ModeP, width = 2, height = 1, pixels = [1, 7]\<rparr>
   \<and> (\<exists>m. create_mask \<lparr>mode = ModeP, width = 2, height = 1, pixels = [1, 7]\<rparr> [0, 1, 2] = Inr m
        \<and> width m = 2 \<and> height m = 1
        \<and> getpixel m (0, 0) = Inr 255 \<and> getpixel m (1, 0) = Inr 0)"
proof -
  let ?s = "\<lparr>mode = ModeP, width = 2, height = 1, pixels = [1, 7]\<rparr>"
  have wf: "wf_image ?s" by (simp add: wf_image_def)
  from create_mask_pixels [OF wf, of "[0, 1, 2]"]
  obtain m where m: "create_mask ?s [0, 1, 2] = Inr m" "width m = 2" "height m = 1"
    "\<forall>x < 2. \<forall>y < 1. \<exists>p. getpixel ?s (x, y) = Inr p
        \<and> getpixel m (x, y) = Inr (if p \<in> set [0, 1, 2] then 255 else 0)"
    by auto
  from m(4) have "\<exists>p. getpixel ?s (0, 0) = Inr p
        \<and> getpixel m (0, 0) = Inr (if p \<in> set [0, 1, 2] then 255 else 0)"
    by simp
  then have a: "getpixel m (0, 0) = Inr 255" by (auto simp: getpixel_def)
  from m(4) have "\<exists>p. getpixel ?s (1, 0) = Inr p
        \<and> getpixel m (1, 0) = Inr (if p \<in> set [0, 1, 2] then 255 else 0)"
    by simp
  then have b: "getpixel m (1, 0) = Inr 0" by (auto simp: getpixel_def)
  show ?thesis using wf m(1-3) a b by blast
qed

text \<open>
  The mask of a mask under the display's colours 0, 1, 2: the mask of a one-pixel image
  of an allowed colour is the pixel 255, and the mask of that mask is the pixel 0.
\<close>

theorem create_mask_twice_counterexample:
  "create_mask \<lparr>mode = ModeP, width = 1, height = 1, pixels = [0]\<rparr> [0, 1, 2]
     = Inr \<lparr>mode = Mode1, width = 1, height = 1, pixels = [255]\<rparr>
   \<and> create_mask \<lparr>mode = Mode1, width = 1, height = 1, pixels = [255]\<rparr> [0, 1, 2]
     = Inr \<lparr>mode = Mode1, width = 1, height = 1, pixels = [0]\<rparr>"
  by (simp add: create_mask_def Image_new_def getpixel_def putpixel_def)

text \<open>
  Claim C7, amended. For an image whose pixels are all allowed indices, both applications
  of \<open>create_mask\<close> return. The first mask is 255 at every pixel. The second mask is 255
  at every pixel when 255, the value written for a visible pixel, is itself an allowed
  index, and 0 at every pixel when it is not (as for the display's colours 0, 1, 2). So
  the second mask is the first exactly when 255 is allowed or the image has no pixel.
\<close>

theorem create_mask_twice:
  assumes "wf_image source" "\<forall>p \<in> set (pixels source). p \<in> set allowed"
  shows "\<exists>m1 m2. create_mask source allowed = Inr m1 \<and> create_mask m1 allowed = Inr m2
     \<and> m1 = \<lparr>mode = Mode1, width = width source, height = height source,
              pixels = replicate (width source * height source) 255\<rparr>
     \<and> m2 = \<lparr>mode = Mode1, width = width source, height = height source,
              pixels = replicate (width source * height source)
                         (if 255 \<in> set allowed then 255 else 0)\<rparr>
     \<and> (m2 = m1 \<longleftrightarrow> 255 \<in> set allowed \<or> width source * height source = 0)"
proof -
  let ?n = "width source * height source"
  let ?m1 = "mask_of source allowed"
  let ?m2 = "mask_of ?m1 allowed"
  have len: "length (pixels source) = ?n" using assms(1) by (simp add: wf_image_def)
  have "map (\<lambda>p. if p \<in> set allowed then 255 else 0) (pixels source)
          = map (\<lambda>p. 255::nat) (pixels source)"
    using assms(2) by (intro map_cong) auto
  then have p1: "pixels ?m1 = replicate ?n 255"
    using len by (simp add: mask_of_def map_replicate_const)
  have wf1: "wf_image ?m1" using len by (simp add: wf_image_def mask_of_def)
  have p2: "pixels ?m2 = replicate ?n (if 255 \<in> set allowed then 255 else 0)"
    using p1 by (simp add: mask_of_def)
  have e1: "?m1 = \<lparr>mode = Mode1, width = width source, height = height source,
              pixels = replicate ?n 255\<rparr>"
    using p1 by (simp add: mask_of_def)
  have e2: "?m2 = \<lparr>mode = Mode1, width = width source, height = height source,
              pixels = replicate ?n (if 255 \<in> set allowed then 255 else 0)\<rparr>"
    using p2 by (simp add: mask_of_def)
  have "?m2 = ?m1 \<longleftrightarrow> pixels ?m2 = pixels ?m1"
    by (auto simp: mask_of_def)
  also have "\<dots> \<longleftrightarrow> 255 \<in> set allowed \<or> ?n = 0"
    unfolding p1 p2 by (auto simp: replicate_eq_replicate)
  finally have q: "?m2 = ?m1 \<longleftrightarrow> 255 \<in> set allowed \<or> ?n = 0" .
  from create_mask_closed_form [OF assms(1), of allowed]
    create_mask_closed_form [OF wf1, of allowed] e1 e2 q
  show ?thesis by (intro exI [of _ ?m1] exI [of _ ?m2] conjI)
qed

theorem create_mask_twice_witness:
  "wf_image \<lparr>mode = ModeP, width = 1, height = 2, pixels = [2, 0]\<rparr>
   \<and> set (pixels \<lparr>mode = ModeP, width = 1, height = 2, pixels = [2, 0]\<rparr>) \<subseteq> set [0, 2, 255]
   \<and> create_mask \<lparr>mode = ModeP, width = 1, height = 2, pixels = [2, 0]\<rparr> [0, 2, 255]
        = Inr \<lparr>mode = Mode1, width = 1, height = 2, pixels = [255, 255]\<rparr>
   \<and> create_mask \<lparr>mode = Mode1, width = 1, height = 2, pixels = [255, 255]\<rparr> [0, 2, 255]
        = Inr \<lparr>mode = Mode1, width = 1, height = 2, pixels = [255, 255]\<rparr>
   \<and> wf_image \<lparr>mode = ModeP, width = 2, height = 1, pixels = [1, 0]\<rparr>
   \<and> set (pixels \<lparr>mode = ModeP, width = 2, height = 1, pixels = [1, 0]\<rparr>) \<subseteq> set [0, 1, 2]
   \<and> create_mask \<lparr>mode = ModeP, width = 2, height = 1, pixels = [1, 0]\<rparr> [0, 1, 2]
        = Inr \<lparr>mode = Mode1, width = 2, height = 1, pixels = [255, 255]\<rparr>
   \<and> create_mask \<lparr>mode = Mode1, width = 2, height = 1, pixels = [255, 255]\<rparr> [0, 1, 2]
        = Inr \<lparr>mode = Mode1, width = 2, height = 1, pixels = [0, 0]\<rparr>"
proof -
  let ?s = "\<lparr>mode = ModeP, width = 1, height = 2, pixels = [2, 0]\<rparr>"
  let ?t = "\<lparr>mode = ModeP, width = 2, height = 1, pixels = [1, 0]\<rparr>"
  have wf: "wf_image ?s" "wf_image ?t" by (simp_all add: wf_image_def)
  have al: "\<forall>p \<in> set (pixels ?s). p \<in> set [0, 2, 255]"
    "\<forall>p \<in> set (pixels ?t). p \<in> set [0, 1, 2]"
    by simp_all
  have su: "set (pixels ?s) \<subseteq> set [0, 2, 255]" "set (pixels ?t) \<subseteq> set [0, 1, 2]"
    by simp_all
  have two: "replicate 2 x = [x, x]" for x :: nat
    by (simp add: numeral_2_eq_2)
  from create_mask_twice [OF wf(1) al(1)]
  have a: "create_mask ?s [0, 2, 255]
        = Inr \<lparr>mode = Mode1, width = 1, height = 2, pixels = [255, 255]\<rparr>
     \<and> create_mask \<lparr>mode = Mode1, width = 1, height = 2, pixels = [255, 255]\<rparr> [0, 2, 255]
        = Inr \<lparr>mode = Mode1, width = 1, height = 2, pixels = [255, 255]\<rparr>"
    by (auto simp: two)
  from create_mask_twice [OF wf(2) al(2)]
  have b: "create_mask ?t [0, 1, 2]
        = Inr \<lparr>mode = Mode1, width = 2, height = 1, pixels = [255, 255]\<rparr>
     \<and> create_mask \<lparr>mode = Mode1, width = 2, height = 1, pixels = [255, 255]\<rparr> [0, 1, 2]
        = Inr \<lparr>mode = Mode1, width = 2, height = 1, pixels = [0, 0]\<rparr>"
    by (auto simp: two)
  from wf su a b show ?thesis by blast
qed

section \<open>Coordinates that the drawing layer accepts\<close>

lemma text_ok:
  "drawing_accepts env \<Longrightarrow> \<bar>coord_value x\<bar> \<le> 2 ^ 30 \<Longrightarrow> \<bar>coord_value y\<bar> \<le> 2 ^ 30
     \<Longrightarrow> text_raises env (x, y) = None"
  by (simp add: drawing_accepts_def)

lemma rectangle_ok:
  "drawing_accepts env \<Longrightarrow> \<bar>x0\<bar> \<le> 2 ^ 30 \<Longrightarrow> \<bar>y0\<bar> \<le> 2 ^ 30 \<Longrightarrow> \<bar>x1\<bar> \<le> 2 ^ 30
     \<Longrightarrow> \<bar>y1\<bar> \<le> 2 ^ 30 \<Longrightarrow> x0 \<le> x1 \<Longrightarrow> y0 \<le> y1
     \<Longrightarrow> rectangle_raises env (x0, y0, x1, y1) = None"
  by (simp add: drawing_accepts_def)

lemma font_boundedD:
  assumes "font_bounded env"
  shows "0 \<le> fst (getsize env font_size text)" "fst (getsize env font_size text) \<le> 2 ^ 28"
    "0 \<le> snd (getsize env font_size text)" "snd (getsize env font_size text) \<le> 2 ^ 28"
  using assms by (simp_all add: font_bounded_def)

lemma int_coord_ok: "\<bar>n\<bar> \<le> 2 ^ 30 \<Longrightarrow> \<bar>coord_value (CInt n)\<bar> \<le> 2 ^ 30"
proof -
  assume "\<bar>n\<bar> \<le> 2 ^ 30"
  then have "(of_int \<bar>n\<bar> :: rat) \<le> of_int (2 ^ 30)" by (simp only: of_int_le_iff)
  then show ?thesis by simp
qed

lemma half_coord_ok:
  assumes "\<bar>h\<bar> + \<bar>a\<bar> \<le> 2 ^ 30"
  shows "\<bar>coord_value (CFloat (of_int h + of_int a / 2))\<bar> \<le> 2 ^ 30"
proof -
  have "\<bar>(of_int h :: rat) + of_int a / 2\<bar> \<le> \<bar>of_int h\<bar> + \<bar>of_int a / 2\<bar>"
    by (rule abs_triangle_ineq)
  also have "\<bar>(of_int a :: rat) / 2\<bar> \<le> \<bar>of_int a\<bar>" by simp
  finally have "\<bar>(of_int h :: rat) + of_int a / 2\<bar> \<le> of_int (\<bar>h\<bar> + \<bar>a\<bar>)" by simp
  also have "(of_int (\<bar>h\<bar> + \<bar>a\<bar>) :: rat) \<le> of_int (2 ^ 30)"
    using assms by (simp only: of_int_le_iff)
  finally show ?thesis by simp
qed

lemma centre_coord_ok:
  assumes "\<bar>a\<bar> \<le> 2 ^ 30"
  shows "\<bar>coord_value (CFloat (of_int a / 2))\<bar> \<le> 2 ^ 30"
  using half_coord_ok [of 0 a] assms by simp

lemma int_truediv_2_bound: "\<bar>int_truediv a 2\<bar> \<le> \<bar>a\<bar>"
  by (simp add: int_truediv_def) linarith

lemma int_truediv_2_sign: "0 \<le> a \<Longrightarrow> 0 \<le> int_truediv a 2" "a \<le> 0 \<Longrightarrow> int_truediv a 2 \<le> 0"
  by (auto simp: int_truediv_def)

lemma c_intI: "\<bar>v\<bar> \<le> 2 ^ 30 \<Longrightarrow> c_int v"
  by (simp add: c_int_def) arith

lemma test_env_accepts: "drawing_accepts test_env"
proof -
  have a: "c_long v" if "\<bar>v\<bar> \<le> 2 ^ 30" for v :: rat
    using that by (simp add: c_long_def abs_le_iff)
  have b: "c_long (of_int n)" if "\<bar>n\<bar> \<le> 2 ^ 30" for n :: int
  proof -
    have "- (2 ^ 63) \<le> n" "n < 2 ^ 63" using that by simp_all
    then have "(of_int (- (2 ^ 63)) :: rat) \<le> of_int n" "(of_int n :: rat) < of_int (2 ^ 63)"
      by (simp_all only: of_int_le_iff of_int_less_iff)
    then show ?thesis by (simp add: c_long_def)
  qed
  have "text_raises test_env (x, y) = None"
    if "\<bar>coord_value x\<bar> \<le> 2 ^ 30" "\<bar>coord_value y\<bar> \<le> 2 ^ 30" for x y
    using a [OF that(1)] a [OF that(2)] by (simp add: test_env_def)
  moreover have "rectangle_raises test_env (x0, y0, x1, y1) = None"
    if "\<bar>x0\<bar> \<le> 2 ^ 30" "\<bar>y0\<bar> \<le> 2 ^ 30" "\<bar>x1\<bar> \<le> 2 ^ 30" "\<bar>y1\<bar> \<le> 2 ^ 30"
    for x0 y0 x1 y1
    using b [OF that(1)] b [OF that(2)] b [OF that(3)] b [OF that(4)]
    by (simp add: test_env_def)
  ultimately show ?thesis
    unfolding drawing_accepts_def by blast
qed

lemma test_env_font: "font_bounded test_env"
proof -
  have "int (min (length t) 40) * 8 \<le> 2 ^ 28" for t :: string
  proof -
    have "int (min (length t) 40) \<le> 40" by simp
    then show ?thesis by simp
  qed
  then show ?thesis by (simp add: font_bounded_def test_env_def)
qed

section \<open>Properties of the current-conditions renderer\<close>

lemma has_metricD:
  "has_metric env data_point k \<Longrightarrow> \<exists>v r. getitem data_point k = Inr v \<and> round1 env v = Inr r"
  by (auto simp: has_metric_def ok_def thn_def split: sum.splits)

lemma show_current_weather_result:
  assumes "getitem data_point ''summary'' = Inr (JStr summary)"
    and "getitem data_point ''pressure'' = Inr v1" "round1 env v1 = Inr r1"
    and "getitem data_point ''windSpeed'' = Inr v2" "round1 env v2 = Inr r2"
    and "getitem data_point ''visibility'' = Inr v3" "round1 env v3 = Inr r3"
    and "getitem data_point ''ozone'' = Inr v4" "round1 env v4 = Inr r4"
    and "drawing_accepts env" "font_bounded env"
    and "0 \<le> WIDTH inky_display" "WIDTH inky_display \<le> 2 ^ 28" "\<bar>h\<bar> \<le> 2 ^ 28"
  shows "show_current_weather env draw data_point inky_display h =
     Inr (Canvas (cwidth draw) (cheight draw) (cfill draw)
            (cops draw @
              [Text (CFloat (of_int (WIDTH inky_display - fst (getsize env 20 summary)) / 2),
                     CFloat (of_int h + of_int (40 - snd (getsize env 20 summary)) / 2))
                 summary (RED inky_display) 20,
               Text (CFloat (of_int (WIDTH inky_display
                                - fst (getsize env 17 (''Pressure '' @ r1))) / 2),
                     CInt (h + 40))
                 (''Pressure '' @ r1) (BLACK inky_display) 17,
               Text (CFloat (of_int (WIDTH inky_display
                                - fst (getsize env 17 (''Wind speed '' @ r2))) / 2),
                     CInt (h + 60))
                 (''Wind speed '' @ r2) (BLACK inky_display) 17,
               Text (CFloat (of_int (WIDTH inky_display
                                - fst (getsize env 17 (''Visibility '' @ r3))) / 2),
                     CInt (h + 80))
                 (''Visibility '' @ r3) (BLACK inky_display) 17,
               Text (CFloat (of_int (WIDTH inky_display
                                - fst (getsize env 17 (''Ozone '' @ r4))) / 2),
                     CInt (h + 100))
                 (''Ozone '' @ r4) (BLACK inky_display) 17]),
          h + 130)"
proof -
  note f = font_boundedD [OF assms(11)]
  have x: "\<bar>coord_value (CFloat (of_int (WIDTH inky_display - fst (getsize env n s)) / 2))\<bar>
             \<le> 2 ^ 30" for n s
    using f(1,2) [of n s] assms(12,13) by (intro centre_coord_ok) simp
  have y: "\<bar>coord_value (CInt (h + k))\<bar> \<le> 2 ^ 30" if "0 \<le> k" "k \<le> 100" for k
    using assms(14) that by (intro int_coord_ok) simp
  have y0: "\<bar>coord_value (CFloat (of_int h + of_int (40 - snd (getsize env 20 summary)) / 2))\<bar>
             \<le> 2 ^ 30"
    using f(3,4) [of 20 summary] assms(14) by (intro half_coord_ok) simp
  have t: "text_raises env
        (CFloat (of_int (WIDTH inky_display - fst (getsize env 20 summary)) / 2),
         CFloat (of_int h + of_int (40 - snd (getsize env 20 summary)) / 2)) = None"
    "text_raises env
        (CFloat (of_int (WIDTH inky_display - fst (getsize env 17 (''Pressure '' @ r1))) / 2),
         CInt (h + 40)) = None"
    "text_raises env
        (CFloat (of_int (WIDTH inky_display - fst (getsize env 17 (''Wind speed '' @ r2))) / 2),
         CInt (h + 40 + 20)) = None"
    "text_raises env
        (CFloat (of_int (WIDTH inky_display - fst (getsize env 17 (''Visibility '' @ r3))) / 2),
         CInt (h + 40 + 20 + 20)) = None"
    "text_raises env
        (CFloat (of_int (WIDTH inky_display - fst (getsize env 17 (''Ozone '' @ r4))) / 2),
         CInt (h + 40 + 20 + 20 + 20)) = None"
    using x y0 y [of 40] y [of 60] y [of 80] y [of 100]
    by (auto intro!: text_ok [OF assms(10)])
  show ?thesis
    using assms(1-9) t
    by (simp add: show_current_weather_def thn_def str_value_def Let_def split_def
        draw_text_def add_op_def LARGE_FONT_SIZE_def MEDIUM_FONT_SIZE_def SUMMARY_H_def)
qed

text \<open>
  At the starting offset \<open>2 ^ 64\<close> the renderer returns nothing: no C long holds the row
  of the text, and \<^verbatim>\<open>draw.text\<close> raises.
\<close>

theorem show_current_weather_offset_counterexample:
  "show_current_weather test_env (Canvas 400 300 0 []) test_reading inky_what (2 ^ 64)
     = Inl SystemError"
  by (simp add: show_current_weather_def thn_def str_value_def Let_def split_def draw_text_def
      test_env_def test_reading_def inky_what_def c_long_def
      LARGE_FONT_SIZE_def MEDIUM_FONT_SIZE_def SUMMARY_H_def)

text \<open>
  Claim C8, amended. For a reading that holds the summary and the four metrics, and every
  starting offset \<open>h\<close> of absolute value at most \<open>2 ^ 28\<close>, on a display at most \<open>2 ^ 28\<close>
  wide, with text sizes from 0 to \<open>2 ^ 28\<close> and a drawing layer that accepts coordinates up
  to \<open>2 ^ 30\<close>, \<open>show_current_weather\<close> returns \<open>h + 130\<close>, whatever the reading holds:
  the header band of 2 * LARGE_FONT_SIZE, four advances of LARGE_FONT_SIZE and a padding
  of 10. The texts it drew are appended to the canvas, and when the font's large text is
  at most as high as the header band and its medium text at most as high as an advance
  plus the padding, every text it drew lies in the rows from \<open>h\<close> to the returned offset.
\<close>

theorem show_current_weather_offset:
  assumes "getitem data_point ''summary'' = Inr (JStr summary)"
    and "has_metric env data_point ''pressure''" "has_metric env data_point ''windSpeed''"
    and "has_metric env data_point ''visibility''" "has_metric env data_point ''ozone''"
    and "drawing_accepts env" "font_bounded env"
    and "0 \<le> WIDTH inky_display" "WIDTH inky_display \<le> 2 ^ 28" "\<bar>h\<bar> \<le> 2 ^ 28"
  shows "\<exists>draw' texts.
       show_current_weather env draw data_point inky_display h = Inr (draw', h + 130)
     \<and> 130 = int SUMMARY_H + 4 * int LARGE_FONT_SIZE + 10
     \<and> cops draw' = cops draw @ texts
     \<and> ((\<forall>s. snd (getsize env LARGE_FONT_SIZE s) \<le> int SUMMARY_H
              \<and> snd (getsize env MEDIUM_FONT_SIZE s) \<le> int LARGE_FONT_SIZE + 10) \<longrightarrow>
         (\<forall>op \<in> set texts. \<exists>top bottom. text_rows env op = Some (top, bottom)
              \<and> of_int h \<le> top \<and> bottom \<le> of_int (h + 130)))"
proof -
  from assms(2-5) obtain v1 r1 v2 r2 v3 r3 v4 r4 where m:
    "getitem data_point ''pressure'' = Inr v1" "round1 env v1 = Inr r1"
    "getitem data_point ''windSpeed'' = Inr v2" "round1 env v2 = Inr r2"
    "getitem data_point ''visibility'' = Inr v3" "round1 env v3 = Inr r3"
    "getitem data_point ''ozone'' = Inr v4" "round1 env v4 = Inr r4"
    by (metis has_metricD)
  let ?texts = "[Text (CFloat (of_int (WIDTH inky_display - fst (getsize env 20 summary)) / 2),
                     CFloat (of_int h + of_int (40 - snd (getsize env 20 summary)) / 2))
                 summary (RED inky_display) 20,
               Text (CFloat (of_int (WIDTH inky_display
                                - fst (getsize env 17 (''Pressure '' @ r1))) / 2),
                     CInt (h + 40))
                 (''Pressure '' @ r1) (BLACK inky_display) 17,
               Text (CFloat (of_int (WIDTH inky_display
                                - fst (getsize env 17 (''Wind speed '' @ r2))) / 2),
                     CInt (h + 60))
                 (''Wind speed '' @ r2) (BLACK inky_display) 17,
               Text (CFloat (of_int (WIDTH inky_display
                                - fst (getsize env 17 (''Visibility '' @ r3))) / 2),
                     CInt (h + 80))
                 (''Visibility '' @ r3) (BLACK inky_display) 17,
               Text (CFloat (of_int (WIDTH inky_display
                                - fst (getsize env 17 (''Ozone '' @ r4))) / 2),
                     CInt (h + 100))
                 (''Ozone '' @ r4) (BLACK inky_display) 17]"
  let ?draw' = "Canvas (cwidth draw) (cheight draw) (cfill draw) (cops draw @ ?texts)"
  have c: "130 = int SUMMARY_H + 4 * int LARGE_FONT_SIZE + 10"
    by (simp add: SUMMARY_H_def LARGE_FONT_SIZE_def)
  have r: "show_current_weather env draw data_point inky_display h = Inr (?draw', h + 130)"
    by (rule show_current_weather_result [OF assms(1) m assms(6-10)])
  have rows: "\<forall>op \<in> set ?texts. \<exists>top bottom. text_rows env op = Some (top, bottom)
              \<and> of_int h \<le> top \<and> bottom \<le> of_int (h + 130)"
    if f: "\<forall>s. snd (getsize env LARGE_FONT_SIZE s) \<le> int SUMMARY_H
              \<and> snd (getsize env MEDIUM_FONT_SIZE s) \<le> int LARGE_FONT_SIZE + 10"
  proof -
    have big: "snd (getsize env 20 s) \<le> 40" for s
      using f by (simp add: SUMMARY_H_def LARGE_FONT_SIZE_def)
    have med: "snd (getsize env 17 s) \<le> 30" for s
      using f by (simp add: MEDIUM_FONT_SIZE_def LARGE_FONT_SIZE_def)
    have s1: "(of_int h :: rat) \<le> of_int h + of_int (40 - snd (getsize env 20 summary)) / 2"
      using big [of summary] by simp
    have s2: "of_int h + of_int (40 - snd (getsize env 20 summary)) / 2
                + of_int (snd (getsize env 20 summary)) \<le> (of_int (h + 130) :: rat)"
    proof -
      have "of_int h + of_int (40 - snd (getsize env 20 summary)) / 2
                + of_int (snd (getsize env 20 summary))
            = (of_int h + 20 + of_int (snd (getsize env 20 summary)) / 2 :: rat)"
        by (simp add: field_simps)
      also have "\<dots> \<le> of_int h + 20 + 40 / 2"
        using big [of summary] by (simp add: of_int_le_numeral_iff)
      also have "\<dots> \<le> of_int (h + 130)" by simp
      finally show ?thesis .
    qed
    have m2: "(of_int (h + k) :: rat) + of_int (snd (getsize env 17 s)) \<le> of_int (h + 130)"
      if "k \<le> 100" for k s
    proof -
      have "h + k + snd (getsize env 17 s) \<le> h + 130" using med [of s] that by simp
      then have "(of_int (h + k + snd (getsize env 17 s)) :: rat) \<le> of_int (h + 130)"
        by (simp only: of_int_le_iff)
      then show ?thesis by simp
    qed
    show ?thesis
      using s1 s2 m2 [of 40] m2 [of 60] m2 [of 80] m2 [of 100]
      by (simp add: text_rows_def)
  qed
  show ?thesis
    using r c rows by (intro exI [of _ ?draw'] exI [of _ ?texts]) (simp del: of_int_add)
qed

theorem show_current_weather_offset_witness:
  "getitem test_reading ''summary'' = Inr (JStr ''Clear'')
   \<and> has_metric test_env test_reading ''pressure''
   \<and> has_metric test_env test_reading ''windSpeed''
   \<and> has_metric test_env test_reading ''visibility''
   \<and> has_metric test_env test_reading ''ozone''
   \<and> drawing_accepts test_env \<and> font_bounded test_env
   \<and> 0 \<le> WIDTH inky_what \<and> WIDTH inky_what \<le> 2 ^ 28 \<and> \<bar>0 :: int\<bar> \<le> 2 ^ 28
   \<and> (\<forall>s. snd (getsize test_env LARGE_FONT_SIZE s) \<le> int SUMMARY_H
          \<and> snd (getsize test_env MEDIUM_FONT_SIZE s) \<le> int LARGE_FONT_SIZE + 10)
   \<and> (\<exists>draw' texts.
         show_current_weather test_env (Canvas 400 300 0 []) test_reading inky_what 0
           = Inr (draw', 130)
       \<and> cops draw' = texts
       \<and> (\<forall>op \<in> set texts. \<exists>top bottom. text_rows test_env op = Some (top, bottom)
              \<and> 0 \<le> top \<and> bottom \<le> 130))"
proof -
  have s: "getitem test_reading ''summary'' = Inr (JStr ''Clear'')"
    by (simp add: test_reading_def)
  have m: "has_metric test_env test_reading ''pressure''"
    "has_metric test_env test_reading ''windSpeed''"
    "has_metric test_env test_reading ''visibility''"
    "has_metric test_env test_reading ''ozone''"
    by (simp_all add: has_metric_def ok_def thn_def test_env_def test_reading_def)
  have w: "0 \<le> WIDTH inky_what" "WIDTH inky_what \<le> 2 ^ 28" "\<bar>0 :: int\<bar> \<le> 2 ^ 28"
    by (simp_all add: inky_what_def)
  have f: "\<forall>s. snd (getsize test_env LARGE_FONT_SIZE s) \<le> int SUMMARY_H
          \<and> snd (getsize test_env MEDIUM_FONT_SIZE s) \<le> int LARGE_FONT_SIZE + 10"
    by (simp add: test_env_def LARGE_FONT_SIZE_def MEDIUM_FONT_SIZE_def SUMMARY_H_def)
  from show_current_weather_offset [OF s m test_env_accepts test_env_font w,
      of "Canvas 400 300 0 []"] f
  have "\<exists>draw' texts.
         show_current_weather test_env (Canvas 400 300 0 []) test_reading inky_what 0
           = Inr (draw', 130)
       \<and> cops draw' = texts
       \<and> (\<forall>op \<in> set texts. \<exists>top bottom. text_rows test_env op = Some (top, bottom)
              \<and> 0 \<le> top \<and> bottom \<le> 130)"
    by auto
  with s m w f test_env_accepts test_env_font show ?thesis by blast
qed

section \<open>Properties of the icon bar\<close>

lemma show_current_weather_icon_result:
  assumes "getitem data_point ''temperature'' = Inr v1" "round1 env v1 = Inr r1"
    and "getitem data_point ''apparentTemperature'' = Inr v2" "round1 env v2 = Inr r2"
    and "getitem data_point ''precipProbability'' = Inr v3" "round1 env v3 = Inr r3"
    and "getitem data_point ''icon'' = Inr v" "lookup_icon_value v = Some icon_name"
    and "icons icon_name = Some icon" "masks icon_name = Some icon_mask"
    and "mode icon_mask = Mode1" "width icon_mask = width icon" "height icon_mask = height icon"
    and "drawing_accepts env" "font_bounded env"
    and "0 \<le> WIDTH inky_display" "WIDTH inky_display \<le> 2 ^ 28" "\<bar>h\<bar> \<le> 2 ^ 28"
    and "small_image icon" "small_image last_icon"
  shows "show_current_weather_icon env (Some last_icon) img data_point inky_display icons masks h =
     Inr (Canvas (cwidth img) (cheight img) (cfill img)
            (cops img @
              [Rectangle (0, h, WIDTH inky_display, h + int (height icon)) (BLACK inky_display),
               Text (CInt 8,
                     CFloat (of_int h + of_int (int (height icon)
                        - snd (getsize env 15 (r1 @ ''C feels like '' @ r2 @ ''C''))) / 2))
                 (r1 @ ''C feels like '' @ r2 @ ''C'') (WHITE inky_display) 15,
               Text (CInt (WIDTH inky_display
                        - fst (getsize env 15 (''Precip. chance: '' @ r3 @ ''%'')) - 8),
                     CFloat (of_int h + of_int (int (height icon)
                        - snd (getsize env 15 (''Precip. chance: '' @ r3 @ ''%''))) / 2))
                 (''Precip. chance: '' @ r3 @ ''%'') (WHITE inky_display) 15,
               Paste icon (int_truediv (WIDTH inky_display - int (width last_icon)) 2, h)
                 icon_mask]),
          h + int (height icon))"
proof -
  note f = font_boundedD [OF assms(15)]
  have ih: "int (height icon) \<le> 2 ^ 28" "int (width icon) \<le> 2 ^ 28"
    "int (width last_icon) \<le> 2 ^ 28"
    using assms(19,20) by (simp_all add: small_image_def)
  have r: "rectangle_raises env (0, h, WIDTH inky_display, h + int (height icon)) = None"
    using assms(16-18) ih by (intro rectangle_ok [OF assms(14)]) simp_all
  have y: "\<bar>coord_value (CFloat (of_int h + of_int (int (height icon) - snd (getsize env n s)) / 2))\<bar>
             \<le> 2 ^ 30" for n s
    using f(3,4) [of n s] assms(18) ih by (intro half_coord_ok) simp
  have t1: "text_raises env (CInt 8,
        CFloat (of_int h + of_int (int (height icon)
           - snd (getsize env 15 (r1 @ ''C feels like '' @ r2 @ ''C''))) / 2)) = None"
    using y by (intro text_ok [OF assms(14)] int_coord_ok) simp_all
  have t2: "text_raises env
       (CInt (WIDTH inky_display - fst (getsize env 15 (''Precip. chance: '' @ r3 @ ''%'')) - 8),
        CFloat (of_int h + of_int (int (height icon)
           - snd (getsize env 15 (''Precip. chance: '' @ r3 @ ''%''))) / 2)) = None"
    using y f(1,2) [of 15 "''Precip. chance: '' @ r3 @ ''%''"] assms(16,17)
    by (intro text_ok [OF assms(14)] int_coord_ok) simp_all
  let ?x = "int_truediv (WIDTH inky_display - int (width last_icon)) 2"
  have x: "\<bar>?x\<bar> \<le> 2 ^ 28"
    using int_truediv_2_bound [of "WIDTH inky_display - int (width last_icon)"] assms(16,17) ih
    by simp
  have c: "c_int ?x" "c_int h" "c_int (?x + int (width icon))" "c_int (h + int (height icon))"
    using x assms(18) ih by (auto intro!: c_intI)
  show ?thesis
    using assms(1-13) r t1 t2 c
    by (simp add: show_current_weather_icon_def thn_def Let_def split_def dict_get_def
        draw_text_def draw_rectangle_def paste_def add_op_def SMALL_FONT_SIZE_def)
qed

lemma load_icons_result:
  assumes "\<forall>(icon_name, icon_image) \<in> set icon_files. wf_image icon_image"
  shows "load_icons inky_display icon_files (icons, masks, last_icon) =
     Inr (icons ++ map_of (rev icon_files),
          masks ++ map_of (rev (map (\<lambda>(icon_name, icon_image).
             (icon_name, mask_of icon_image
                [WHITE inky_display, BLACK inky_display, RED inky_display])) icon_files)),
          (if icon_files = [] then last_icon else Some (snd (last icon_files))))"
  using assms
proof (induction icon_files arbitrary: icons masks last_icon)
  case Nil
  then show ?case by simp
next
  case (Cons f rest)
  obtain icon_name icon_image where f: "f = (icon_name, icon_image)" by (cases f)
  have wf: "wf_image icon_image" using Cons.prems f by simp
  have rest: "\<forall>(icon_name, icon_image) \<in> set rest. wf_image icon_image"
    using Cons.prems by simp
  show ?case
    unfolding f
    by (simp add: create_mask_closed_form [OF wf] Cons.IH [OF rest] map_add_assoc [symmetric]
        map_add_upd [where g = Map.empty, simplified] del: fun_upd_apply)
qed

lemma loaded_mask:
  assumes "map_of (rev icon_files) icon_name = Some icon"
  shows "map_of (rev (map (\<lambda>(icon_name, icon_image). (icon_name, mask_of icon_image colours))
            icon_files)) icon_name = Some (mask_of icon colours)"
  using assms by (simp add: rev_map map_of_map)

lemma loaded_small:
  assumes "\<forall>(icon_name, icon_image) \<in> set icon_files. small_image icon_image"
  shows "map_of (rev icon_files) icon_name = Some icon \<Longrightarrow> small_image icon"
    and "icon_files \<noteq> [] \<Longrightarrow> small_image (snd (last icon_files))"
proof -
  show "small_image icon" if "map_of (rev icon_files) icon_name = Some icon"
    using map_of_SomeD [OF that] assms by auto
  show "small_image (snd (last icon_files))" if "icon_files \<noteq> []"
  proof -
    obtain icon_name icon_image where l: "last icon_files = (icon_name, icon_image)"
      by (cases "last icon_files")
    with last_in_set [OF that] have "(icon_name, icon_image) \<in> set icon_files" by simp
    with assms have "small_image icon_image" by auto
    with l show ?thesis by simp
  qed
qed

lemma icon_ofD:
  assumes "icon_of icons data_point = Some icon"
  shows "\<exists>v icon_name. getitem data_point ''icon'' = Inr v
     \<and> lookup_icon_value v = Some icon_name \<and> icons icon_name = Some icon"
  using assms by (auto simp: icon_of_def split: sum.splits option.splits)




text \<open>
  Claim C3. The claim is that the selected icon is pasted at the horizontal position
  (display width - its own width) / 2. With the icon files \<open>sun\<close> (4 wide) and \<open>wind\<close>
  (2 wide) loaded in this order, on a display 400 wide, a \<open>clear-day\<close> reading selects the
  \<open>sun\<close> icon and the code pastes it at x = 199, the position for the width of the icon
  loaded last, where its own width gives 198.
\<close>

theorem show_current_weather_icon_paste_uses_last_loaded_width:
  "thn (load_icons inky_what [(''sun'', sun_icon), (''wind'', wind_icon)]
          (Map.empty, Map.empty, None))
     (\<lambda>(icons, masks, icon_image).
        thn (show_current_weather_icon test_env icon_image (Canvas 400 300 0 []) test_reading
               inky_what icons masks 130)
          (\<lambda>(img, used_h). Inr (icon_of icons test_reading, pasted_icons (cops img))))
     = Inr (Some sun_icon, [(sun_icon, (199, 130))])
   \<and> int_truediv (WIDTH inky_what - int (width sun_icon)) 2 = 198
   \<and> int_truediv (WIDTH inky_what - int (width wind_icon)) 2 = 199"
proof -
  have wf: "\<forall>(icon_name, icon_image) \<in> set [(''sun'', sun_icon), (''wind'', wind_icon)].
      wf_image icon_image"
    by (simp add: wf_image_def sun_icon_def wind_icon_def)
  let ?icons = "[''sun'' \<mapsto> sun_icon, ''wind'' \<mapsto> wind_icon]"
  let ?masks = "[''sun'' \<mapsto> mask_of sun_icon [0, 1, 2], ''wind'' \<mapsto> mask_of wind_icon [0, 1, 2]]"
  have ic: "icon_of ?icons test_reading = Some sun_icon"
    by (simp add: icon_of_def test_reading_def lookup_icon_value_def lookup_icon_def icon_map_def)
  have m: "getitem test_reading ''temperature'' = Inr (JNum 20)"
    "round1 test_env (JNum 20) = Inr ''7.5''"
    "getitem test_reading ''apparentTemperature'' = Inr (JNum 19)"
    "round1 test_env (JNum 19) = Inr ''7.5''"
    "getitem test_reading ''precipProbability'' = Inr (JNum 0)"
    "round1 test_env (JNum 0) = Inr ''7.5''"
    by (simp_all add: test_env_def test_reading_def)
  have lk: "getitem test_reading ''icon'' = Inr (JStr ''clear-day'')"
    "lookup_icon_value (JStr ''clear-day'' :: int jvalue) = Some ''sun''"
    "?icons ''sun'' = Some sun_icon" "?masks ''sun'' = Some (mask_of sun_icon [0, 1, 2])"
    by (simp_all add: test_reading_def lookup_icon_value_def lookup_icon_def icon_map_def)
  have k: "mode (mask_of sun_icon [0, 1, 2]) = Mode1"
    "width (mask_of sun_icon [0, 1, 2]) = width sun_icon"
    "height (mask_of sun_icon [0, 1, 2]) = height sun_icon"
    by (simp_all add: mask_of_def)
  have w: "0 \<le> WIDTH inky_what" "WIDTH inky_what \<le> 2 ^ 28" "\<bar>130 :: int\<bar> \<le> 2 ^ 28"
    by (simp_all add: inky_what_def)
  have sm: "small_image sun_icon" "small_image wind_icon"
    by (simp_all add: small_image_def sun_icon_def wind_icon_def)
  have ld: "load_icons inky_what [(''sun'', sun_icon), (''wind'', wind_icon)]
          (Map.empty, Map.empty, None) = Inr (?icons, ?masks, Some wind_icon)"
    using load_icons_result [OF wf, of inky_what Map.empty Map.empty None]
    by (simp add: inky_what_def)
  have "\<exists>img. show_current_weather_icon test_env (Some wind_icon) (Canvas 400 300 0 [])
          test_reading inky_what ?icons ?masks 130 = Inr (img, 132)
        \<and> pasted_icons (cops img) = [(sun_icon, (199, 130))]"
    using show_current_weather_icon_result [where img = "Canvas 400 300 0 []"
        and icons = ?icons and masks = ?masks and icon_name = "''sun''" and icon = sun_icon
        and icon_mask = "mask_of sun_icon [0, 1, 2]" and last_icon = wind_icon,
        OF m lk k test_env_accepts test_env_font w sm]
    by (simp add: int_truediv_def inky_what_def sun_icon_def wind_icon_def)
  then have "thn (load_icons inky_what [(''sun'', sun_icon), (''wind'', wind_icon)]
          (Map.empty, Map.empty, None))
     (\<lambda>(icons, masks, icon_image).
        thn (show_current_weather_icon test_env icon_image (Canvas 400 300 0 []) test_reading
               inky_what icons masks 130)
          (\<lambda>(img, used_h). Inr (icon_of icons test_reading, pasted_icons (cops img))))
     = Inr (Some sun_icon, [(sun_icon, (199, 130))])"
    unfolding ld using ic by (auto simp: thn_def)
  moreover have "int_truediv (WIDTH inky_what - int (width sun_icon)) 2 = 198"
    "int_truediv (WIDTH inky_what - int (width wind_icon)) 2 = 199"
    by (simp_all add: int_truediv_def inky_what_def sun_icon_def wind_icon_def)
  ultimately show ?thesis by blast
qed

section \<open>Properties of the layout\<close>

lemma pasted_tiles_append:
  "pasted_tiles (xs @ ys) = pasted_tiles xs @ pasted_tiles ys"
  by (induction xs rule: pasted_tiles.induct) simp_all

lemma loaded_masks_fit:
  "masks_fit (map_of (rev icon_files))
     (map_of (rev (map (\<lambda>(icon_name, icon_image). (icon_name, mask_of icon_image colours))
        icon_files)))"
  unfolding masks_fit_def
proof (intro allI impI)
  fix icon_name icon
  assume "map_of (rev icon_files) icon_name = Some icon"
  from loaded_mask [OF this, of colours]
  show "\<exists>icon_mask. map_of (rev (map (\<lambda>(icon_name, icon_image).
            (icon_name, mask_of icon_image colours)) icon_files)) icon_name = Some icon_mask
          \<and> mode icon_mask = Mode1
          \<and> width icon_mask = width icon \<and> height icon_mask = height icon"
    by (simp add: mask_of_def)
qed

lemma draw_weather_tile_ok:
  assumes "daily_ok env icons timezone data_point" and "masks_fit icons masks"
    and "\<forall>icon_name icon. icons icon_name = Some icon \<longrightarrow> small_image icon"
    and "drawing_accepts env" "font_bounded env" "int (cwidth tile) \<le> 2 ^ 28"
  shows "\<exists>tile'. draw_weather_tile env inky_display tile data_point icons masks timezone = Inr tile'
     \<and> cwidth tile' = cwidth tile \<and> cheight tile' = cheight tile"
proof -
  from assms(1) obtain tv nm where t:
    "getitem data_point ''time'' = Inr tv" "day_name env tv timezone = Inr nm"
    by (auto simp: daily_ok_def ok_def thn_def split: sum.splits)
  from assms(1) obtain icon where "icon_of icons data_point = Some icon"
    by (auto simp: daily_ok_def)
  then obtain v icon_name where i: "getitem data_point ''icon'' = Inr v"
    "lookup_icon_value v = Some icon_name" "icons icon_name = Some icon"
    by (blast dest: icon_ofD)
  from assms(2) i(3) obtain icon_mask where k: "masks icon_name = Some icon_mask"
    "mode icon_mask = Mode1" "width icon_mask = width icon" "height icon_mask = height icon"
    by (auto simp: masks_fit_def)
  from assms(1) obtain v1 r1 v2 r2 where m:
    "getitem data_point ''temperatureLow'' = Inr v1" "round1 env v1 = Inr r1"
    "getitem data_point ''temperatureHigh'' = Inr v2" "round1 env v2 = Inr r2"
    unfolding daily_ok_def by (metis has_metricD)
  note f = font_boundedD [OF assms(5)]
  let ?cw = "int (cwidth tile)"
  let ?tw = "fst (getsize env 17 nm)" and ?th = "snd (getsize env 17 nm)"
  let ?temp = "r1 @ ''C to '' @ r2 @ ''C''"
  have sm: "int (width icon) \<le> 2 ^ 28" "int (height icon) \<le> 2 ^ 28"
    using assms(3) i(3) by (auto simp: small_image_def)
  have b1: "\<bar>int_truediv (?cw - ?tw) 2\<bar> \<le> 2 ^ 28"
    using int_truediv_2_bound [of "?cw - ?tw"] f(1,2) [of 17 nm] assms(6) by simp
  have t1: "text_raises env (CInt (int_truediv (?cw - ?tw) 2), CInt 0) = None"
    using b1 by (intro text_ok [OF assms(4)] int_coord_ok) simp_all
  have r: "rectangle_raises env (0, ?th, ?cw, ?th + int (height icon)) = None"
    using f(3,4) [of 17 nm] assms(6) sm by (intro rectangle_ok [OF assms(4)]) simp_all
  let ?x = "int_truediv (?cw - int (width icon)) 2"
  have b2: "\<bar>?x\<bar> \<le> 2 ^ 28"
    using int_truediv_2_bound [of "?cw - int (width icon)"] assms(6) sm by simp
  have c: "c_int ?x" "c_int ?th" "c_int (?x + int (width icon))"
    "c_int (?th + int (height icon))"
    using b2 f(3,4) [of 17 nm] sm by (auto intro!: c_intI)
  have t2: "text_raises env
      (CFloat (of_int (?cw - fst (getsize env 17 ?temp)) / 2), CInt (?th + int (height icon)))
      = None"
    using f(1,2) [of 17 ?temp] f(3,4) [of 17 nm] assms(6) sm
    by (intro text_ok [OF assms(4)] int_coord_ok centre_coord_ok) simp_all
  show ?thesis
    using t i k m t1 r c t2
    by (simp add: draw_weather_tile_def thn_def Let_def split_def dict_get_def paste_def
        draw_text_def draw_rectangle_def add_op_def MEDIUM_FONT_SIZE_def)
qed

lemma tiles_loop_ok:
  assumes "getitem res ''daily'' = Inr daily" "getitem daily ''data'' = Inr (JList days)"
    and "getitem res ''timezone'' = Inr timezone"
    and "\<forall>i \<in> set columns. i < length days \<and> i \<le> 2
           \<and> daily_ok env icons timezone (days ! i)"
    and "masks_fit icons masks"
    and "\<forall>icon_name icon. icons icon_name = Some icon \<longrightarrow> small_image icon"
    and "drawing_accepts env" "font_bounded env"
    and "0 \<le> tile_w" "tile_w \<le> 2 ^ 28" "0 \<le> tile_h" "tile_h \<le> 2 ^ 28"
    and "\<bar>used_h\<bar> \<le> 2 ^ 29"
  shows "\<exists>img'. tiles_loop env inky_display res icons masks tile_w tile_h used_h columns img
           = Inr img'
     \<and> map tile_geometry (pasted_tiles (cops img'))
         = map tile_geometry (pasted_tiles (cops img))
             @ map (\<lambda>i. (tile_w, tile_h, int i * tile_w, used_h)) columns"
  using assms(4)
proof (induction columns arbitrary: img)
  case Nil
  then show ?case by simp
next
  case (Cons i rest)
  let ?tile = "Canvas (nat tile_w) (nat tile_h) (WHITE inky_display) []"
  have new: "Image_new_P (tile_w, tile_h) (WHITE inky_display) = Inr ?tile"
    using assms(9,11) by (simp add: Image_new_P_def)
  have i: "i < length days" "i \<le> 2" "daily_ok env icons timezone (days ! i)"
    using Cons.prems by simp_all
  have cw: "int (cwidth ?tile) \<le> 2 ^ 28" using assms(9,10) by simp
  from draw_weather_tile_ok [OF i(3) assms(5,6,7,8) cw, of inky_display]
  obtain tile' where d:
    "draw_weather_tile env inky_display ?tile (days ! i) icons masks timezone = Inr tile'"
    "cwidth tile' = nat tile_w" "cheight tile' = nat tile_h"
    by auto
  let ?img = "add_op img (PasteCanvas tile' (int i * tile_w, used_h))"
  have x: "0 \<le> int i * tile_w" "int i * tile_w \<le> 2 * tile_w"
    using i(2) assms(9) by (simp_all add: mult_right_mono)
  have c: "c_int (int i * tile_w)" "c_int used_h" "c_int (int i * tile_w + tile_w)"
    "c_int (used_h + tile_h)"
    using x assms(9-13) by (auto intro!: c_intI)
  have pc: "paste_canvas img tile' (int i * tile_w, used_h) = Inr ?img"
    using c d(2,3) assms(9,11) by (simp add: paste_canvas_def)
  have "\<forall>i \<in> set rest. i < length days \<and> i \<le> 2 \<and> daily_ok env icons timezone (days ! i)"
    using Cons.prems by simp
  from Cons.IH [OF this, of ?img] obtain img' where r:
    "tiles_loop env inky_display res icons masks tile_w tile_h used_h rest ?img = Inr img'"
    "map tile_geometry (pasted_tiles (cops img'))
         = map tile_geometry (pasted_tiles (cops ?img))
             @ map (\<lambda>i. (tile_w, tile_h, int i * tile_w, used_h)) rest"
    by auto
  have step: "tiles_loop env inky_display res icons masks tile_w tile_h used_h (i # rest) img
      = Inr img'"
    using new assms(1-3) i(1) d(1) pc r(1) by (simp add: thn_def)
  have "map tile_geometry (pasted_tiles (cops ?img))
      = map tile_geometry (pasted_tiles (cops img)) @ [(tile_w, tile_h, int i * tile_w, used_h)]"
    using d(2,3) assms(9,11)
    by (simp add: add_op_def pasted_tiles_append tile_geometry_def)
  with r(2) step show ?case by simp
qed

lemma show_current_weather_ok:
  assumes "current_ok env icons data_point"
    and "drawing_accepts env" "font_bounded env"
    and "0 \<le> WIDTH inky_display" "WIDTH inky_display \<le> 2 ^ 28" "\<bar>h\<bar> \<le> 2 ^ 28"
  shows "\<exists>img'. show_current_weather env img data_point inky_display h = Inr (img', h + 130)
     \<and> pasted_tiles (cops img') = pasted_tiles (cops img)"
proof -
  from assms(1) obtain summary where s: "getitem data_point ''summary'' = Inr (JStr summary)"
    by (auto simp: current_ok_def ok_def thn_def str_value_def split: sum.splits jvalue.splits)
  from assms(1) obtain v1 r1 v2 r2 v3 r3 v4 r4 where m:
    "getitem data_point ''pressure'' = Inr v1" "round1 env v1 = Inr r1"
    "getitem data_point ''windSpeed'' = Inr v2" "round1 env v2 = Inr r2"
    "getitem data_point ''visibility'' = Inr v3" "round1 env v3 = Inr r3"
    "getitem data_point ''ozone'' = Inr v4" "round1 env v4 = Inr r4"
    unfolding current_ok_def by (metis has_metricD)
  show ?thesis
    unfolding show_current_weather_result [OF s m assms(2-6)]
    by (simp add: pasted_tiles_append)
qed

lemma show_current_weather_icon_ok:
  assumes "current_ok env icons data_point" "icon_of icons data_point = Some icon"
    and "masks_fit icons masks"
    and "drawing_accepts env" "font_bounded env"
    and "0 \<le> WIDTH inky_display" "WIDTH inky_display \<le> 2 ^ 28" "\<bar>h\<bar> \<le> 2 ^ 28"
    and "small_image icon" "small_image last_icon"
  shows "\<exists>img'. show_current_weather_icon env (Some last_icon) img data_point inky_display
             icons masks h = Inr (img', h + int (height icon))
     \<and> pasted_tiles (cops img') = pasted_tiles (cops img)"
proof -
  from assms(1) obtain v1 r1 v2 r2 v3 r3 where m:
    "getitem data_point ''temperature'' = Inr v1" "round1 env v1 = Inr r1"
    "getitem data_point ''apparentTemperature'' = Inr v2" "round1 env v2 = Inr r2"
    "getitem data_point ''precipProbability'' = Inr v3" "round1 env v3 = Inr r3"
    unfolding current_ok_def by (metis has_metricD)
  from icon_ofD [OF assms(2)] obtain v icon_name where i:
    "getitem data_point ''icon'' = Inr v" "lookup_icon_value v = Some icon_name"
    "icons icon_name = Some icon"
    by blast
  from assms(3) i(3) obtain icon_mask where k: "masks icon_name = Some icon_mask"
    "mode icon_mask = Mode1" "width icon_mask = width icon" "height icon_mask = height icon"
    by (auto simp: masks_fit_def)
  show ?thesis
    unfolding show_current_weather_icon_result [where img = img and icons = icons
        and masks = masks and icon_name = icon_name and icon = icon and icon_mask = icon_mask,
        OF m i k assms(4-10)]
    by (simp add: pasted_tiles_append)
qed

text \<open>
  Claim C4. For a fetched document whose current reading and first three daily readings
  hold what the renderers read, and a display of width \<open>W\<close> and height \<open>H\<close> that leaves
  room below the current-conditions sections, the main block returns and pastes exactly
  three tiles, each \<open>W div 3\<close> wide and \<open>H - used_h\<close> high, at the x-offsets 0, \<open>W div 3\<close>
  and \<open>2 * (W div 3)\<close> and the y-offset \<open>used_h\<close>, where \<open>used_h = 130 + icon height\<close> is
  the offset the current-conditions sections consumed; no two of them overlap. The third
  offset is \<open>2 * W div 3\<close> as well unless \<open>W mod 3 = 2\<close>. The display and the icons are at
  most \<open>2 ^ 28\<close> wide and high, so that every box pasted is a box of C ints.
\<close>

theorem main_three_tiles:
  assumes "requests_get (forecast_url latitude longitude dskey) = Inr res"
    and "status_code res = 200" "json res = Inr doc"
    and "getitem doc ''currently'' = Inr currently"
    and "getitem doc ''daily'' = Inr daily" "getitem daily ''data'' = Inr (JList days)"
    and "3 \<le> length days"
    and "getitem doc ''timezone'' = Inr timezone" "ok (now_stamp env timezone)"
    and "\<forall>(icon_name, icon_image) \<in> set icon_files. wf_image icon_image"
    and "current_ok env (map_of (rev icon_files)) currently"
    and "icon_of (map_of (rev icon_files)) currently = Some icon"
    and "\<forall>i < 3. daily_ok env (map_of (rev icon_files)) timezone (days ! i)"
    and "0 \<le> WIDTH inky_display" "WIDTH inky_display \<le> 2 ^ 28"
    and "130 + int (height icon) \<le> HEIGHT inky_display" "HEIGHT inky_display \<le> 2 ^ 28"
    and "\<forall>(icon_name, icon_image) \<in> set icon_files. small_image icon_image"
    and "drawing_accepts env" "font_bounded env"
  shows "\<exists>img. main env requests_get latitude longitude dskey inky_display icon_files
           = Inr (Rotated180 img)
     \<and> map tile_geometry (pasted_tiles (cops img))
         = [(WIDTH inky_display div 3, HEIGHT inky_display - (130 + int (height icon)),
               0, 130 + int (height icon)),
            (WIDTH inky_display div 3, HEIGHT inky_display - (130 + int (height icon)),
               WIDTH inky_display div 3, 130 + int (height icon)),
            (WIDTH inky_display div 3, HEIGHT inky_display - (130 + int (height icon)),
               2 * (WIDTH inky_display div 3), 130 + int (height icon))]
     \<and> (\<forall>i < 3. \<forall>j < 3. i \<noteq> j \<longrightarrow>
           \<not> boxes_overlap (tile_box (pasted_tiles (cops img) ! i))
                            (tile_box (pasted_tiles (cops img) ! j)))
     \<and> (WIDTH inky_display mod 3 \<noteq> 2 \<longrightarrow>
           2 * (WIDTH inky_display div 3) = 2 * WIDTH inky_display div 3)"
proof -
  let ?W = "WIDTH inky_display" and ?H = "HEIGHT inky_display"
  let ?u = "130 + int (height icon)"
  let ?colours = "[WHITE inky_display, BLACK inky_display, RED inky_display]"
  let ?icons = "map_of (rev icon_files)"
  let ?masks = "map_of (rev (map (\<lambda>(icon_name, icon_image).
                (icon_name, mask_of icon_image ?colours)) icon_files))"
  have gw: "get_weather requests_get latitude longitude dskey = Inr doc"
    using assms(1-3) by (simp add: get_weather_def thn_def)
  from icon_ofD [OF assms(12)] obtain v icon_name where i:
    "getitem currently ''icon'' = Inr v" "lookup_icon_value v = Some icon_name"
    "?icons icon_name = Some icon"
    by blast
  have ne: "icon_files \<noteq> []" using i(3) by auto
  have ld: "load_icons inky_display icon_files (Map.empty, Map.empty, None)
      = Inr (?icons, ?masks, Some (snd (last icon_files)))"
    using load_icons_result [OF assms(10), of inky_display Map.empty Map.empty None] ne
    by simp
  have fit: "masks_fit ?icons ?masks" by (rule loaded_masks_fit)
  have sm: "small_image icon" "small_image (snd (last icon_files))"
    using loaded_small [OF assms(18)] i(3) ne by auto
  have sma: "\<forall>icon_name icon. ?icons icon_name = Some icon \<longrightarrow> small_image icon"
    using loaded_small(1) [OF assms(18)] by blast
  have ih: "int (height icon) \<le> 2 ^ 28" using sm(1) by (simp add: small_image_def)
  let ?img0 = "Canvas (nat ?W) (nat ?H) (WHITE inky_display) []"
  have new: "Image_new_P (?W, ?H) (WHITE inky_display) = Inr ?img0"
    using assms(14,16) by (simp add: Image_new_P_def)
  have h0: "\<bar>0 :: int\<bar> \<le> 2 ^ 28" "\<bar>130 :: int\<bar> \<le> 2 ^ 28" by simp_all
  from show_current_weather_ok [OF assms(11,19,20,14,15) h0(1), of ?img0]
  obtain img1 where s1: "show_current_weather env ?img0 currently inky_display 0 = Inr (img1, 130)"
    "pasted_tiles (cops img1) = []"
    by auto
  from show_current_weather_icon_ok [OF assms(11,12) fit assms(19,20,14,15) h0(2) sm, of img1]
  obtain img2 where s2: "show_current_weather_icon env (Some (snd (last icon_files))) img1
      currently inky_display ?icons ?masks 130 = Inr (img2, ?u)"
    "pasted_tiles (cops img2) = []"
    using s1(2) by auto
  have tw: "int_truediv ?W (int FORECARST_COLUMNS) = ?W div 3"
    using assms(14) by (simp add: int_truediv_def FORECARST_COLUMNS_def)
  have cols: "[0..<FORECARST_COLUMNS] = [0, 1, 2]"
    by (simp add: FORECARST_COLUMNS_def upt_rec)
  have dy: "\<forall>i \<in> set [0, 1, 2 :: nat]. i < length days \<and> i \<le> 2
      \<and> daily_ok env ?icons timezone (days ! i)"
    using assms(7,13) by auto
  have twn: "0 \<le> ?W div 3" "?W div 3 \<le> 2 ^ 28" using assms(14,15) by simp_all
  have thn0: "0 \<le> ?H - ?u" "?H - ?u \<le> 2 ^ 28" using assms(16,17) by simp_all
  have ub: "\<bar>?u\<bar> \<le> 2 ^ 29" using ih by simp
  from tiles_loop_ok [OF assms(5,6,8) dy fit sma assms(19,20) twn thn0 ub, of inky_display img2]
  obtain img3 where s3: "tiles_loop env inky_display doc ?icons ?masks (?W div 3) (?H - ?u) ?u
      [0, 1, 2] img2 = Inr img3"
    "map tile_geometry (pasted_tiles (cops img3))
       = [(?W div 3, ?H - ?u, 0, ?u), (?W div 3, ?H - ?u, ?W div 3, ?u),
          (?W div 3, ?H - ?u, 2 * (?W div 3), ?u)]"
    using s2(2) by auto
  from assms(9) obtain stamp where st: "now_stamp env timezone = Inr stamp"
    by (auto simp: ok_def split: sum.splits)
  let ?img = "add_op img3 (Text (CInt 8, CInt (?H - int SMALL_FONT_SIZE))
                 (''Data loaded at '' @ stamp) (RED inky_display) SMALL_FONT_SIZE)"
  have hb: "\<bar>?H - int SMALL_FONT_SIZE\<bar> \<le> 2 ^ 30"
    using assms(16,17) by (simp add: SMALL_FONT_SIZE_def)
  have ts: "text_raises env (CInt 8, CInt (?H - int SMALL_FONT_SIZE)) = None"
    using hb by (intro text_ok [OF assms(19)] int_coord_ok) simp_all
  have run: "main env requests_get latitude longitude dskey inky_display icon_files
           = Inr (Rotated180 ?img)"
    using gw ld new assms(4,8) s1(1) s2(1) tw cols s3(1) st ts
    by (simp add: main_def thn_def Let_def draw_text_def)
  have geo: "map tile_geometry (pasted_tiles (cops ?img))
       = [(?W div 3, ?H - ?u, 0, ?u), (?W div 3, ?H - ?u, ?W div 3, ?u),
          (?W div 3, ?H - ?u, 2 * (?W div 3), ?u)]"
    using s3(2) by (simp add: add_op_def pasted_tiles_append)
  then obtain p0 p1 p2 where ps: "pasted_tiles (cops ?img) = [p0, p1, p2]"
    "tile_geometry p0 = (?W div 3, ?H - ?u, 0, ?u)"
    "tile_geometry p1 = (?W div 3, ?H - ?u, ?W div 3, ?u)"
    "tile_geometry p2 = (?W div 3, ?H - ?u, 2 * (?W div 3), ?u)"
    by (auto simp: map_eq_Cons_conv)
  have bx: "tile_box p0 = (0, ?u, ?W div 3, ?u + (?H - ?u))"
    "tile_box p1 = (?W div 3, ?u, ?W div 3 + ?W div 3, ?u + (?H - ?u))"
    "tile_box p2 = (2 * (?W div 3), ?u, 2 * (?W div 3) + ?W div 3, ?u + (?H - ?u))"
    using ps(2-4) by (auto simp: tile_geometry_def tile_box_def split: prod.splits)
  have sep: "\<forall>i < 3. \<forall>j < 3. i \<noteq> j \<longrightarrow>
           \<not> boxes_overlap (tile_box (pasted_tiles (cops ?img) ! i))
                            (tile_box (pasted_tiles (cops ?img) ! j))"
  proof (intro allI impI)
    fix i j :: nat assume "i < 3" "j < 3" "i \<noteq> j"
    then have "(i = 0 \<or> i = 1 \<or> i = 2) \<and> (j = 0 \<or> j = 1 \<or> j = 2)" by auto
    with \<open>i \<noteq> j\<close> twn(1) show "\<not> boxes_overlap (tile_box (pasted_tiles (cops ?img) ! i))
                            (tile_box (pasted_tiles (cops ?img) ! j))"
      unfolding ps(1) by (auto simp: bx boxes_overlap_def)
  qed
  have rd: "?W mod 3 \<noteq> 2 \<longrightarrow> 2 * (?W div 3) = 2 * ?W div 3" by presburger
  from run geo sep rd show ?thesis by (intro exI [of _ ?img] conjI)
qed

theorem main_three_tiles_witness:
  "status_code test_response = 200 \<and> json test_response = Inr test_doc
   \<and> getitem test_doc ''currently'' = Inr test_reading
   \<and> getitem test_doc ''daily'' = Inr (JDict [(''data'', JList [test_reading, test_reading, test_reading])])
   \<and> getitem (JDict [(''data'', JList [test_reading, test_reading, test_reading])]) ''data''
        = Inr (JList [test_reading, test_reading, test_reading])
   \<and> 3 \<le> length [test_reading, test_reading, test_reading]
   \<and> getitem test_doc ''timezone'' = Inr (JStr ''Europe/London'')
   \<and> ok (now_stamp test_env (JStr ''Europe/London''))
   \<and> wf_image sun_icon
   \<and> current_ok test_env (map_of (rev [(''sun'', sun_icon)])) test_reading
   \<and> icon_of (map_of (rev [(''sun'', sun_icon)])) test_reading = Some sun_icon
   \<and> daily_ok test_env (map_of (rev [(''sun'', sun_icon)])) (JStr ''Europe/London'') test_reading
   \<and> 0 \<le> WIDTH inky_what \<and> WIDTH inky_what \<le> 2 ^ 28
   \<and> 130 + int (height sun_icon) \<le> HEIGHT inky_what \<and> HEIGHT inky_what \<le> 2 ^ 28
   \<and> small_image sun_icon \<and> drawing_accepts test_env \<and> font_bounded test_env
   \<and> (\<exists>img. main test_env (\<lambda>url. Inr test_response) ''51.5'' ''-0.1'' ''k'' inky_what
                [(''sun'', sun_icon)] = Inr (Rotated180 img)
         \<and> map tile_geometry (pasted_tiles (cops img))
             = [(133, 168, 0, 132), (133, 168, 133, 132), (133, 168, 266, 132)])"
proof -
  let ?days = "[test_reading, test_reading, test_reading]"
  let ?daily = "JDict [(''data'', JList ?days)] :: int jvalue"
  let ?tz = "JStr ''Europe/London'' :: int jvalue"
  let ?files = "[(''sun'', sun_icon)]"
  have r: "(\<lambda>url. Inr test_response) (forecast_url ''51.5'' ''-0.1'' ''k'')
             = (Inr test_response :: error + int response)"
    by simp
  have a: "status_code test_response = 200" "json test_response = Inr test_doc"
    by (simp_all add: test_response_def)
  have d: "getitem test_doc ''currently'' = Inr test_reading"
    "getitem test_doc ''daily'' = Inr ?daily"
    "getitem ?daily ''data'' = Inr (JList ?days)"
    "3 \<le> length ?days"
    "getitem test_doc ''timezone'' = Inr ?tz"
    "ok (now_stamp test_env ?tz)"
    by (simp_all add: test_doc_def test_env_def ok_def)
  have wf1: "wf_image sun_icon"
    by (simp add: wf_image_def sun_icon_def)
  then have wf: "\<forall>(icon_name, icon_image) \<in> set ?files. wf_image icon_image"
    by simp
  have sm1: "small_image sun_icon"
    by (simp add: small_image_def sun_icon_def)
  then have sm: "\<forall>(icon_name, icon_image) \<in> set ?files. small_image icon_image"
    by simp
  have ic: "icon_of (map_of (rev ?files)) test_reading = Some sun_icon"
    by (simp add: icon_of_def test_reading_def lookup_icon_value_def lookup_icon_def icon_map_def)
  have cur: "current_ok test_env (map_of (rev ?files)) test_reading"
    unfolding current_ok_def using ic
    by (simp add: has_metric_def ok_def thn_def str_value_def test_env_def test_reading_def)
  have day: "daily_ok test_env (map_of (rev ?files)) ?tz test_reading"
    unfolding daily_ok_def using ic
    by (simp add: has_metric_def ok_def thn_def test_env_def test_reading_def)
  have days: "\<forall>i < 3. daily_ok test_env (map_of (rev ?files)) ?tz (?days ! i)"
    using day by (auto simp: nth_Cons split: nat.splits)
  have dims: "0 \<le> WIDTH inky_what" "WIDTH inky_what \<le> 2 ^ 28"
    "130 + int (height sun_icon) \<le> HEIGHT inky_what" "HEIGHT inky_what \<le> 2 ^ 28"
    by (simp_all add: inky_what_def sun_icon_def)
  from main_three_tiles [of "\<lambda>url. Inr test_response" "''51.5''" "''-0.1''" "''k''",
      OF r a d wf cur ic days dims sm test_env_accepts test_env_font]
  have "\<exists>img. main test_env (\<lambda>url. Inr test_response) ''51.5'' ''-0.1'' ''k'' inky_what
                ?files = Inr (Rotated180 img)
         \<and> map tile_geometry (pasted_tiles (cops img))
             = [(133, 168, 0, 132), (133, 168, 133, 132), (133, 168, 266, 132)]"
    by (auto simp: inky_what_def sun_icon_def)
  with a d wf1 cur ic day dims sm1 test_env_accepts test_env_font show ?thesis by blast
qed

end
